theory Spec2Isabelle
  imports Main "HOL-Library.AList"
begin

section \<open>Python strings and byte strings\<close>

text \<open>
  A Python \<open>str\<close> is a sequence of Unicode code points and \<open>len\<close> counts them; a
  \<open>bytes\<close> object is a sequence of byte values. Both are lists of naturals here,
  told apart by their type synonym. \<open>py\<close> turns an ASCII literal into a \<open>str\<close>.
\<close>

type_synonym pystr = "nat list"
type_synonym bytes = "nat list"

definition py :: "string \<Rightarrow> pystr" where
  "py s = map of_char s"

text \<open>\<open>sub in s\<close> on strings: \<open>sub\<close> occurs in \<open>s\<close> as a contiguous run.\<close>

fun startswith :: "pystr \<Rightarrow> pystr \<Rightarrow> bool" where
  "startswith s [] = True"
| "startswith [] (p # ps) = False"
| "startswith (c # cs) (p # ps) = (c = p \<and> startswith cs ps)"

fun py_in :: "pystr \<Rightarrow> pystr \<Rightarrow> bool" where
  "py_in sub [] = (sub = [])"
| "py_in sub (c # cs) = (startswith (c # cs) sub \<or> py_in sub cs)"

subsection \<open>\<open>hex\<close>, \<open>zfill\<close> and \<open>'{0:04x}'.format\<close>\<close>

definition hex_digit :: "nat \<Rightarrow> nat" where
  "hex_digit d = (if d < 10 then 48 + d else 87 + d)"

function hex_digits :: "nat \<Rightarrow> pystr" where
  "hex_digits n =
     (if n < 16 then [hex_digit n] else hex_digits (n div 16) @ [hex_digit (n mod 16)])"
  by pat_completeness auto
termination
  by (relation "measure (\<lambda>n. n)") auto

declare hex_digits.simps [simp del]

text \<open>\<open>hex(n)\<close> for \<open>n \<ge> 0\<close>: the prefix \<open>0x\<close> and the lowercase digits, no leading zero.\<close>

definition py_hex :: "nat \<Rightarrow> pystr" where
  "py_hex n = py ''0x'' @ hex_digits n"

text \<open>\<open>s.zfill(width)\<close>: zeros on the left, after a leading sign if there is one.\<close>

definition zfill :: "nat \<Rightarrow> pystr \<Rightarrow> pystr" where
  "zfill width s =
     (if width \<le> length s then s
      else (case s of
              [] \<Rightarrow> replicate width 48
            | c # rest \<Rightarrow>
                if c = 43 \<or> c = 45 then c # replicate (width - length s) 48 @ rest
                else replicate (width - length s) 48 @ s))"

definition format_04x :: "nat \<Rightarrow> pystr" where
  "format_04x n = replicate (4 - length (hex_digits n)) 48 @ hex_digits n"

subsection \<open>\<open>json.dumps({'script': s})\<close>\<close>

text \<open>
  \<open>json.dumps\<close> is called with its defaults, so \<open>ensure_ascii\<close> holds: the
  printable ASCII characters other than the quote and the backslash stand for
  themselves, the control characters with a short escape use it, every other code point
  below \<open>0x10000\<close> is written \<open>\uXXXX\<close>, and a code point above as a surrogate pair.
  The separators are the default \<open>', '\<close> and \<open>': '\<close>.
\<close>

definition escape_char :: "nat \<Rightarrow> pystr" where
  "escape_char c =
     (if c = 92 then [92, 92]
      else if c = 34 then [92, 34]
      else if 32 \<le> c \<and> c \<le> 126 then [c]
      else if c = 8 then [92, 98]
      else if c = 12 then [92, 102]
      else if c = 10 then [92, 110]
      else if c = 13 then [92, 114]
      else if c = 9 then [92, 116]
      else if c < 0x10000 then [92, 117] @ format_04x c
      else [92, 117] @ format_04x (0xD800 + ((c - 0x10000) div 1024) mod 1024)
         @ [92, 117] @ format_04x (0xDC00 + (c - 0x10000) mod 1024))"

definition json_string :: "pystr \<Rightarrow> pystr" where
  "json_string s = [34] @ concat (map escape_char s) @ [34]"

definition json_dumps_script :: "pystr \<Rightarrow> pystr" where
  "json_dumps_script s = py ''{'' @ json_string (py ''script'') @ py '': '' @ json_string s @ py ''}''"

subsection \<open>\<open>str.encode('utf-8')\<close>\<close>

text \<open>\<open>None\<close> is the \<open>UnicodeEncodeError\<close> Python raises on a lone surrogate.\<close>

definition utf8_char :: "nat \<Rightarrow> bytes option" where
  "utf8_char c =
     (if c < 0x80 then Some [c]
      else if c < 0x800 then Some [0xC0 + c div 64, 0x80 + c mod 64]
      else if 0xD800 \<le> c \<and> c \<le> 0xDFFF then None
      else if c < 0x10000 then
        Some [0xE0 + c div 4096, 0x80 + (c div 64) mod 64, 0x80 + c mod 64]
      else
        Some [0xF0 + c div 262144, 0x80 + (c div 4096) mod 64,
              0x80 + (c div 64) mod 64, 0x80 + c mod 64])"

fun encode_utf8 :: "pystr \<Rightarrow> bytes option" where
  "encode_utf8 [] = Some []"
| "encode_utf8 (c # cs) =
     (case utf8_char c of
        None \<Rightarrow> None
      | Some b \<Rightarrow> (case encode_utf8 cs of None \<Rightarrow> None | Some bs \<Rightarrow> Some (b @ bs)))"

subsection \<open>The frame of \<open>Node.write\<close>\<close>

text \<open>
  Lines 330 to 347 of \<open>py_nodejs.py\<close>, the part of \<open>write\<close> that computes the bytes
  to send. \<open>Inl\<close> carries \<open>str(e)\<close> of the exception the code raises there:
  \<open>raise(...)\<close> of a tuple is a \<open>TypeError\<close>.
\<close>

definition frame :: "pystr \<Rightarrow> pystr + bytes" where
  "frame s =
     (let msg_json = json_dumps_script s;
          msg_length_int = length msg_json;
          msg_length_hex = py_hex msg_length_int;
          msg_length_str = drop 2 msg_length_hex
      in if length msg_length_str > 8 \<or> msg_length_int \<ge> 16 ^ 8
         then Inl (py ''exceptions must derive from BaseException'')
         else
           (let msg_head = py ''E'' @ zfill 8 msg_length_str @ py ''C'';
                string_to_send = msg_head @ msg_json
            in case encode_utf8 string_to_send of
                 None \<Rightarrow> Inl (py ''surrogates not allowed'')
               | Some string_encoded \<Rightarrow> Inr string_encoded))"

text \<open>
  The reader of a header, written from the specification's words: eight lowercase
  hexadecimal digits and the number they denote.
\<close>

definition hex_digit_value :: "nat \<Rightarrow> nat option" where
  "hex_digit_value c =
     (if 48 \<le> c \<and> c \<le> 57 then Some (c - 48)
      else if 97 \<le> c \<and> c \<le> 102 then Some (c - 87)
      else None)"

fun hex_value_acc :: "nat \<Rightarrow> bytes \<Rightarrow> nat option" where
  "hex_value_acc acc [] = Some acc"
| "hex_value_acc acc (c # cs) =
     (case hex_digit_value c of
        None \<Rightarrow> None
      | Some d \<Rightarrow> hex_value_acc (16 * acc + d) cs)"

definition hex_value :: "bytes \<Rightarrow> nat option" where
  "hex_value ds = hex_value_acc 0 ds"

section \<open>The shared run state, the lock and the companion process\<close>

text \<open>
  Modelled from the spec: the class \<open>ReadWriteLock\<close> (the module \<open>ReadWriteLock\<close> that
  \<open>py_nodejs.py\<close> imports is not among the sources), "a multiple-reader/single-writer
  lock guarding the running flag". The lock counts its readers and knows whether a
  writer holds it. The threads are interleaved by whole critical sections, so an
  acquire finds the lock free unless an interruption has left the coordinator holding
  it; what an acquire does when it would have to wait is not described, it goes through.
\<close>

record rwlock =
  readers :: nat
  writer :: bool

definition ReadWriteLock :: rwlock where
  "ReadWriteLock = \<lparr>readers = 0, writer = False\<rparr>"

datatype held = Unlocked | Read_locked | Write_locked

definition held_mode :: "rwlock \<Rightarrow> held" where
  "held_mode l = (if writer l then Write_locked else if 0 < readers l then Read_locked else Unlocked)"

datatype thread = Coordinator | Monitor

text \<open>
  What the program does to the world outside it, and every access to the flag, is
  recorded in a trace. An access to \<open>NODE_IS_RUNNING\<close> records the mode in which
  \<open>NODE_LOCK\<close> is held at that moment. \<open>Stdin_write\<close>, \<open>Stdin_flush\<close> and \<open>Kill\<close>
  record the call, whether or not it then raises. \<open>Print_took_longer\<close> is the line
  \<open>"Process took longer than " + str(timeout)\<close>.
\<close>

datatype 'v event =
    Sync_to "(pystr \<times> 'v) list"
  | Sync_from
  | Acquire_read thread
  | Release_read thread
  | Acquire_write thread
  | Release_write thread
  | Flag_read thread held
  | Flag_write thread held bool
  | Stdin_write nat bytes
  | Stdin_flush nat
  | Kill nat
  | Stop_monitor nat
  | Spawn nat
  | Print pystr
  | Print_took_longer int

text \<open>
  The companion process a \<open>Node\<close> holds in \<open>self.process\<close>, with the monitor thread
  \<open>self.nstdproc\<close> bound to it: the \<open>returncode\<close> of the \<open>Popen\<close> object (\<open>None\<close>
  until a \<open>poll()\<close> has found the process gone), the thread's \<open>_stop_event\<close>, and
  whether the thread is alive. A process id is taken from the counter \<open>next_pid\<close>: the
  operating system gives a new process an id no earlier process of the model had.
\<close>

record proc =
  pid :: nat
  returncode :: "int option"
  stop_event :: bool
  monitor_live :: bool

text \<open>
  \<open>replaced\<close> holds the processes that \<open>init_process\<close> has taken out of the \<open>Node\<close>,
  oldest first: the \<open>Node\<close> no longer refers to them, but their monitor threads go on
  as long as they are alive, and work on the same flag and lock.
  \<open>run_default_vars\<close> is the dictionary object that the default \<open>vars = {}\<close> of
  \<open>Node.run\<close> evaluates to, once, when the function is defined. A dictionary is the
  list of its items in insertion order.
\<close>

record 'v world =
  NODE_IS_RUNNING :: bool
  NODE_LOCK :: rwlock
  process :: proc
  replaced :: "proc list"
  next_pid :: nat
  run_default_vars :: "(pystr \<times> 'v) list"
  trace :: "'v event list"

definition emit :: "'v event \<Rightarrow> 'v world \<Rightarrow> 'v world" where
  "emit e w = w\<lparr>trace := trace w @ [e]\<rparr>"

definition py_print :: "pystr \<Rightarrow> 'v world \<Rightarrow> 'v world" where
  "py_print s w = emit (Print s) w"

definition acquire_read :: "thread \<Rightarrow> 'v world \<Rightarrow> 'v world" where
  "acquire_read t w =
     emit (Acquire_read t) (w\<lparr>NODE_LOCK := (NODE_LOCK w)\<lparr>readers := readers (NODE_LOCK w) + 1\<rparr>\<rparr>)"

definition release_read :: "thread \<Rightarrow> 'v world \<Rightarrow> 'v world" where
  "release_read t w =
     emit (Release_read t) (w\<lparr>NODE_LOCK := (NODE_LOCK w)\<lparr>readers := readers (NODE_LOCK w) - 1\<rparr>\<rparr>)"

definition acquire_write :: "thread \<Rightarrow> 'v world \<Rightarrow> 'v world" where
  "acquire_write t w = emit (Acquire_write t) (w\<lparr>NODE_LOCK := (NODE_LOCK w)\<lparr>writer := True\<rparr>\<rparr>)"

definition release_write :: "thread \<Rightarrow> 'v world \<Rightarrow> 'v world" where
  "release_write t w = emit (Release_write t) (w\<lparr>NODE_LOCK := (NODE_LOCK w)\<lparr>writer := False\<rparr>\<rparr>)"

definition get_flag :: "thread \<Rightarrow> 'v world \<Rightarrow> bool \<times> 'v world" where
  "get_flag t w = (NODE_IS_RUNNING w, emit (Flag_read t (held_mode (NODE_LOCK w))) w)"

definition set_flag :: "thread \<Rightarrow> bool \<Rightarrow> 'v world \<Rightarrow> 'v world" where
  "set_flag t v w = emit (Flag_write t (held_mode (NODE_LOCK w)) v) (w\<lparr>NODE_IS_RUNNING := v\<rparr>)"

text \<open>
  The three statements \<open>NODE_LOCK.acquire_write(); NODE_IS_RUNNING = v;
  NODE_LOCK.release_write()\<close>, which the source repeats at every guarded write.
\<close>

definition locked_set_flag :: "thread \<Rightarrow> bool \<Rightarrow> 'v world \<Rightarrow> 'v world" where
  "locked_set_flag t v w = release_write t (set_flag t v (acquire_write t w))"

subsection \<open>\<open>Node.clean_lock\<close>\<close>

definition clean_lock :: "'v world \<Rightarrow> 'v world" where
  "clean_lock w = (set_flag Coordinator False w)\<lparr>NODE_LOCK := ReadWriteLock\<rparr>"

subsection \<open>The environment of a call\<close>

text \<open>
  What \<open>json.loads\<close> returns. Numbers keep their literal; the monitor only ever
  subscripts the value and compares a member with a string.
\<close>

datatype json =
    JNull
  | JBool bool
  | JNumber pystr
  | JString pystr
  | JArray "json list"
  | JObject "(pystr \<times> json) list"

text \<open>
  One return of the monitor's \<open>readline\<close>: the text that \<open>.decode('utf-8')\<close> makes of
  the bytes (\<open>None\<close> when it raises \<open>UnicodeDecodeError\<close>), what \<open>poll()\<close> then answers
  (\<open>None\<close> while the process lives, its exit status otherwise), and what \<open>json.loads\<close>
  makes of the text (\<open>None\<close> when it raises).
\<close>

record line_event =
  output_line :: "pystr option"
  poll :: "int option"
  loads :: "json option"

text \<open>
  The monitor thread that reads a line: the one of the process the \<open>Node\<close> holds at that
  moment, or the one of a process it has replaced, by its position in \<open>replaced\<close>.
\<close>

datatype reader = Current | Replaced nat

text \<open>
  The statements of the wait loop of \<open>Node.run\<close> at which \<open>KeyboardInterrupt\<close> can be
  raised, each named by the line that is about to run: the test of the \<open>while\<close>
  (line 294, outside the \<open>try\<close>), the three statements that sample the flag (296 to
  298), the test of the timeout (299 and 300), and the five statements of the branch
  taken when the time is up (301 to 305).
\<close>

datatype point =
    At_while_test
  | At_acquire_read
  | At_sample
  | At_release_read
  | At_timeout_test
  | At_cancel
  | At_acquire_write
  | At_clear
  | At_release_write
  | At_print

text \<open>
  One iteration of the wait loop: the lines the monitor threads have read since the
  coordinator's previous step, in the order they were read; the statement at which
  \<open>KeyboardInterrupt\<close> is raised in this iteration, if it is; and the clock reading
  of this iteration. A statement of lines 301 to 305 names an interruption only in an
  iteration that comes to it. Clock readings and the timeout are integers of one unit;
  the code subtracts and compares them. An interruption inside a call (in \<open>cancel\<close>,
  in a method of the lock), inside the handler, at the test that ends the loop, or
  outside the loop is not described.
\<close>

record tick =
  lines :: "(reader \<times> line_event) list"
  interrupt :: "point option"
  now :: int

text \<open>
  The environment of one call: what the calls into the operating system and the
  libraries answer. Only failures that the source itself handles, and the failure of
  \<open>decode\<close> that ends a monitor thread, are part of it; \<open>Popen\<close>, \<open>print\<close> and the
  two methods of \<open>VariableSync\<close> (module \<open>py_storage\<close>, not among the sources) are
  taken to return.
  \<^item> \<open>write_error\<close>, \<open>flush_error\<close>: \<open>str(e)\<close> of the exception \<open>stdin.write\<close> or
    \<open>stdin.flush\<close> raises, if it does;
  \<^item> \<open>kill_error\<close>: \<open>str(e)\<close> of the exception \<open>os.kill\<close> raises for the id of a
    process that has not been reaped, if it does;
  \<^item> \<open>early_lines\<close>: the lines the monitor threads read between the write and the
    coordinator's first look at the flag;
  \<^item> \<open>start_time\<close>: the value of \<open>time.time()\<close> before the loop;
  \<^item> \<open>ticks\<close>: one entry for each iteration of the wait loop that can happen;
  \<^item> \<open>new_vars\<close>: the dictionary \<open>VariableSync.syncfrom\<close> returns.
\<close>

record 'v env =
  write_error :: "pystr option"
  flush_error :: "pystr option"
  kill_error :: "nat \<Rightarrow> pystr option"
  early_lines :: "(reader \<times> line_event) list"
  start_time :: int
  ticks :: "tick list"
  new_vars :: "(pystr \<times> 'v) list"

subsection \<open>\<open>Node.init_process\<close> and \<open>Node.cancel\<close>\<close>

text \<open>
  \<open>init_process\<close> starts a new process and a new monitor thread for it; the process
  and the thread the \<open>Node\<close> held until then are only dropped from it.
\<close>

definition init_process :: "'v world \<Rightarrow> 'v world" where
  "init_process w =
     emit (Spawn (next_pid w))
       (w\<lparr>process := \<lparr>pid = next_pid w, returncode = None, stop_event = False,
                      monitor_live = True\<rparr>,
          replaced := replaced w @ [process w],
          next_pid := next_pid w + 1\<rparr>)"

definition nstdproc_stop :: "'v world \<Rightarrow> 'v world" where
  "nstdproc_stop w =
     emit (Stop_monitor (pid (process w))) (w\<lparr>process := (process w)\<lparr>stop_event := True\<rparr>\<rparr>)"

text \<open>
  \<open>os.kill(self.process.pid, signal.SIGTERM)\<close>. A process whose exit status \<open>poll()\<close>
  has collected is gone from the process table: the call raises \<open>ProcessLookupError\<close>
  (the POSIX case). For any other process the environment answers.
\<close>

definition os_kill :: "'v env \<Rightarrow> proc \<Rightarrow> pystr option" where
  "os_kill env p =
     (case returncode p of
        None \<Rightarrow> kill_error env (pid p)
      | Some status \<Rightarrow> Some (py ''[Errno 3] No such process''))"

text \<open>
  \<open>cancel\<close> sends the signal, stops the monitor (twice when the signal went through,
  as the source does) and, with \<open>restart\<close>, starts anew.
\<close>

definition cancel :: "'v env \<Rightarrow> bool \<Rightarrow> 'v world \<Rightarrow> 'v world" where
  "cancel env restart w =
     (let w1 = emit (Kill (pid (process w))) w;
          w2 = (case os_kill env (process w) of
                  None \<Rightarrow> nstdproc_stop w1
                | Some e \<Rightarrow> py_print e w1);
          w3 = nstdproc_stop w2
      in if restart then init_process w3 else w3)"

subsection \<open>\<open>Node.write\<close>\<close>

text \<open>
  \<open>write\<close> is a keyword of Isabelle, so the method is \<open>node_write\<close> here.
  \<open>write_try\<close> is its \<open>try\<close> body: \<open>Inl\<close> carries \<open>str(e)\<close> of the exception that leaves
  it and the world at that point.
\<close>

definition write_try :: "'v env \<Rightarrow> pystr \<Rightarrow> 'v world \<Rightarrow> (pystr \<times> 'v world) + 'v world" where
  "write_try env s w =
     (case frame s of
        Inl e \<Rightarrow> Inl (e, w)
      | Inr string_encoded \<Rightarrow>
          (let w1 = emit (Stdin_write (pid (process w)) string_encoded) w
           in case write_error env of
                Some e \<Rightarrow> Inl (e, w1)
              | None \<Rightarrow>
                  (let w2 = emit (Stdin_flush (pid (process w1))) w1
                   in case flush_error env of
                        Some e \<Rightarrow> Inl (e, w2)
                      | None \<Rightarrow> Inr w2)))"

text \<open>The \<open>except Exception as e\<close> branch of \<open>write\<close>, up to its \<open>return -1\<close>.\<close>

definition write_except :: "'v env \<Rightarrow> pystr \<Rightarrow> 'v world \<Rightarrow> 'v world" where
  "write_except env e w =
     (let w1 = (if py_in (py ''Broken pipe'') e
                then py_print (py ''Pipe broke and was restarted'') (cancel env True w)
                else py_print e
                       (py_print (py ''Pipe died for some reason: '') (cancel env True w)))
      in locked_set_flag Coordinator False w1)"

definition node_write :: "'v env \<Rightarrow> pystr \<Rightarrow> 'v world \<Rightarrow> int \<times> 'v world" where
  "node_write env s w =
     (case write_try env s w of
        Inr w' \<Rightarrow> (1, w')
      | Inl (e, w') \<Rightarrow> (- 1, write_except env e w'))"

subsection \<open>\<open>NodeSTDProc.run\<close>, the monitor thread\<close>

text \<open>\<open>str.strip()\<close> removes the characters \<open>str.isspace\<close> accepts from both ends.\<close>

definition py_isspace :: "nat \<Rightarrow> bool" where
  "py_isspace c =
     ((9 \<le> c \<and> c \<le> 13) \<or> (28 \<le> c \<and> c \<le> 32) \<or> c = 133 \<or> c = 160 \<or> c = 5760
      \<or> (8192 \<le> c \<and> c \<le> 8202) \<or> c = 8232 \<or> c = 8233 \<or> c = 8239 \<or> c = 8287
      \<or> c = 12288)"

definition strip :: "pystr \<Rightarrow> pystr" where
  "strip s = rev (dropWhile py_isspace (rev (dropWhile py_isspace s)))"

text \<open>
  \<open>output_json['type'] == 'done'\<close>. \<open>None\<close>: the subscript raises, a \<open>KeyError\<close> on
  a dictionary without the key and a \<open>TypeError\<close> on any other value.
\<close>

definition type_is_done :: "json \<Rightarrow> bool option" where
  "type_is_done j =
     (case j of
        JObject items \<Rightarrow>
          (case map_of items (py ''type'') of
             None \<Rightarrow> None
           | Some v \<Rightarrow> Some (v = JString (py ''done'')))
      | _ \<Rightarrow> None)"

text \<open>\<open>if (output and len(output.strip()) > 0): print(output.strip())\<close>\<close>

definition print_stripped :: "pystr \<Rightarrow> 'v world \<Rightarrow> 'v world" where
  "print_stripped out w = (if out \<noteq> [] \<and> 0 < length (strip out) then py_print (strip out) w else w)"

text \<open>
  "The line parses as a structured message whose declared type equals the reserved
  completion marker", in the words of the specification.
\<close>

definition is_done_message :: "line_event \<Rightarrow> bool" where
  "is_done_message ev =
     (case loads ev of
        None \<Rightarrow> False
      | Some output_json \<Rightarrow> type_is_done output_json = Some True)"

text \<open>
  The body of the monitor's loop for one line (lines 158 to 188), as far as the flag, the
  lock and the output go. It ends with \<open>continue\<close>, with \<open>break\<close>, or with the
  \<open>UnicodeDecodeError\<close> of line 158, which no handler catches.
\<close>

datatype control = Continue | Break | Uncaught

definition monitor_iter :: "line_event \<Rightarrow> 'v world \<Rightarrow> control \<times> 'v world" where
  "monitor_iter ev w =
     (case output_line ev of
        None \<Rightarrow> (Uncaught, w)
      | Some output \<Rightarrow>
          if poll ev \<noteq> None then (Break, locked_set_flag Monitor False w)
          else if output = [] then (Continue, w)
          else
            (case loads ev of
               None \<Rightarrow> (Continue, print_stripped output w)
             | Some output_json \<Rightarrow>
                 (case type_is_done output_json of
                    None \<Rightarrow> (Continue, print_stripped output w)
                  | Some True \<Rightarrow> (Continue, locked_set_flag Monitor False w)
                  | Some False \<Rightarrow> (Continue, print_stripped output w))))"

text \<open>
  One monitor thread at one line; \<open>p\<close> is the thread's own process and stop event. The
  thread tests its stop event and then waits in \<open>readline\<close> (lines 154 and 158), so a
  thread that is alive is waiting there: it handles the line that comes whatever has
  become of its stop event in the meantime, and looks at the event only afterwards. A
  \<open>poll()\<close> that finds the process gone leaves the exit status in the \<open>Popen\<close> object.
  The thread ends by \<open>break\<close>, by the stop event, or by the exception.
\<close>

definition monitor_thread :: "line_event \<Rightarrow> proc \<Rightarrow> 'v world \<Rightarrow> proc \<times> 'v world" where
  "monitor_thread ev p w =
     (if \<not> monitor_live p then (p, w)
      else
        (case monitor_iter ev w of
           (Continue, w') \<Rightarrow> (p\<lparr>monitor_live := \<not> stop_event p\<rparr>, w')
         | (Break, w') \<Rightarrow> (p\<lparr>returncode := poll ev, monitor_live := False\<rparr>, w')
         | (Uncaught, w') \<Rightarrow> (p\<lparr>monitor_live := False\<rparr>, w')))"

definition monitor_line :: "reader \<Rightarrow> line_event \<Rightarrow> 'v world \<Rightarrow> 'v world" where
  "monitor_line r ev w =
     (case r of
        Current \<Rightarrow>
          (let (p, w') = monitor_thread ev (process w) w in w'\<lparr>process := p\<rparr>)
      | Replaced i \<Rightarrow>
          if i < length (replaced w)
          then (let (p, w') = monitor_thread ev (replaced w ! i) w
                in w'\<lparr>replaced := (replaced w')[i := p]\<rparr>)
          else w)"

fun monitor_run :: "(reader \<times> line_event) list \<Rightarrow> 'v world \<Rightarrow> 'v world" where
  "monitor_run [] w = w"
| "monitor_run ((r, ev) # evs) w = monitor_run evs (monitor_line r ev w)"

subsection \<open>\<open>Node.run\<close>\<close>

text \<open>Lines 307 to 311, the handler of \<open>KeyboardInterrupt\<close> before it raises again.\<close>

definition on_interrupt :: "'v env \<Rightarrow> 'v world \<Rightarrow> 'v world" where
  "on_interrupt env w =
     py_print (py ''Process was interrupted.'') (locked_set_flag Coordinator False (cancel env True w))"

text \<open>
  Lines 301 to 305, the branch taken when the time is up. \<open>Inl\<close> is the world in which
  \<open>KeyboardInterrupt\<close> is raised, \<open>Inr\<close> the world at the end of the branch.
\<close>

definition timeout_branch :: "'v env \<Rightarrow> int \<Rightarrow> point option \<Rightarrow> 'v world \<Rightarrow> 'v world + 'v world" where
  "timeout_branch env limit raised w =
     (if raised = Some At_cancel then Inl w
      else
        (let w1 = cancel env True w
         in if raised = Some At_acquire_write then Inl w1
            else
              (let w2 = acquire_write Coordinator w1
               in if raised = Some At_clear then Inl w2
                  else
                    (let w3 = set_flag Coordinator False w2
                     in if raised = Some At_release_write then Inl w3
                        else
                          (let w4 = release_write Coordinator w3
                           in if raised = Some At_print then Inl w4
                              else Inr (emit (Print_took_longer limit) w4))))))"

text \<open>
  Lines 296 to 305, the body of the \<open>try\<close>. \<open>Inl\<close> is the world in which
  \<open>KeyboardInterrupt\<close> is raised; \<open>Inr\<close> carries the new value of the local variable
  \<open>flag\<close> and the world at the end of the body.
\<close>

definition try_body ::
  "'v env \<Rightarrow> int option \<Rightarrow> int \<Rightarrow> tick \<Rightarrow> 'v world \<Rightarrow> 'v world + bool \<times> 'v world" where
  "try_body env timeout start t w =
     (if interrupt t = Some At_acquire_read then Inl w
      else
        (let w1 = acquire_read Coordinator w
         in if interrupt t = Some At_sample then Inl w1
            else
              (let (flag, w2) = get_flag Coordinator w1
               in if interrupt t = Some At_release_read then Inl w2
                  else
                    (let w3 = release_read Coordinator w2
                     in if interrupt t = Some At_timeout_test then Inl w3
                        else
                          (case timeout of
                             None \<Rightarrow> Inr (flag, w3)
                           | Some limit \<Rightarrow>
                               if now t - start > limit
                               then (case timeout_branch env limit (interrupt t) w3 of
                                       Inl w4 \<Rightarrow> Inl w4
                                     | Inr w4 \<Rightarrow> Inr (flag, w4))
                               else Inr (flag, w3))))))"

text \<open>
  The \<open>while flag\<close> loop. It ends normally (\<open>Exited\<close>), by a \<open>KeyboardInterrupt\<close>
  that leaves it (\<open>Interrupted\<close>), or it is still going when the iterations the
  environment provides are used up (\<open>Waiting\<close>). In each iteration the lines the
  monitor threads have read come first, then the coordinator's statements. An
  interruption at the test of the \<open>while\<close> leaves the loop as it is, one inside the
  \<open>try\<close> goes through the handler first.
\<close>

datatype 'v loop_result = Exited "'v world" | Interrupted "'v world" | Waiting "'v world"

fun wait_loop :: "'v env \<Rightarrow> int option \<Rightarrow> int \<Rightarrow> bool \<Rightarrow> tick list \<Rightarrow> 'v world \<Rightarrow> 'v loop_result" where
  "wait_loop env timeout start False ts w = Exited w"
| "wait_loop env timeout start True [] w = Waiting w"
| "wait_loop env timeout start True (t # ts) w =
     (let w1 = monitor_run (lines t) w
      in if interrupt t = Some At_while_test then Interrupted w1
         else
           (case try_body env timeout start t w1 of
              Inl w2 \<Rightarrow> Interrupted (on_interrupt env w2)
            | Inr (flag, w2) \<Rightarrow> wait_loop env timeout start flag ts w2))"

text \<open>\<open>for key in new_vars.keys(): vars[key] = new_vars[key]\<close>\<close>

definition assign_all :: "(pystr \<times> 'v) list \<Rightarrow> (pystr \<times> 'v) list \<Rightarrow> (pystr \<times> 'v) list" where
  "assign_all new vars = fold (\<lambda>(key, v). AList.update key v) new vars"

text \<open>
  What a call of \<open>run\<close> gives its caller: a returned value, which is the dictionary
  \<open>vars\<close> or Python's \<open>None\<close>, or the \<open>KeyboardInterrupt\<close>.
\<close>

datatype 'v outcome = Returned "(pystr \<times> 'v) list option" | Raised_KeyboardInterrupt

text \<open>
  \<open>vars_arg\<close> is \<open>None\<close> when the caller leaves the argument out: the function then
  works on its default object, and what it stores there stays. The result of \<open>run\<close> is
  \<open>None\<close> when the call has not returned within the iterations of the environment.
\<close>

definition run ::
  "'v env \<Rightarrow> pystr \<Rightarrow> (pystr \<times> 'v) list option \<Rightarrow> int option \<Rightarrow> 'v world
     \<Rightarrow> ('v outcome \<times> 'v world) option" where
  "run env script vars_arg timeout w =
     (let vars = (case vars_arg of None \<Rightarrow> run_default_vars w | Some d \<Rightarrow> d);
          w1 = emit (Sync_to vars) w;
          w2 = locked_set_flag Coordinator True w1;
          (retCode, w3) = node_write env script w2
      in if retCode < 0 then Some (Returned None, py_print (py ''Could not run script'') w3)
         else
           (let w4 = monitor_run (early_lines env) w3;
                (flag, w5) = get_flag Coordinator w4;
                start = start_time env
            in case wait_loop env timeout start flag (ticks env) w5 of
                 Waiting w6 \<Rightarrow> None
               | Interrupted w6 \<Rightarrow> Some (Raised_KeyboardInterrupt, w6)
               | Exited w6 \<Rightarrow>
                   (let w7 = emit Sync_from w6;
                        vars' = assign_all (new_vars env) vars;
                        w8 = (case vars_arg of
                                None \<Rightarrow> w7\<lparr>run_default_vars := vars'\<rparr>
                              | Some d \<Rightarrow> w7)
                    in Some (Returned (Some vars'), w8))))"

section \<open>A sample world and sample environments\<close>

text \<open>
  A freshly started \<open>Node\<close>: process 1 is running with its monitor, nothing is held and
  the default dictionary of \<open>run\<close> is still empty. The values of variables are integers
  in the samples.
\<close>

definition world0 :: "int world" where
  "world0 =
     \<lparr>NODE_IS_RUNNING = False, NODE_LOCK = ReadWriteLock,
      process = \<lparr>pid = 1, returncode = None, stop_event = False, monitor_live = True\<rparr>,
      replaced = [],
      next_pid = 2, run_default_vars = [], trace = []\<rparr>"

text \<open>An environment in which nothing fails and nothing happens.\<close>

definition env0 :: "int env" where
  "env0 =
     \<lparr>write_error = None, flush_error = None, kill_error = (\<lambda>p. None),
      early_lines = [], start_time = 0, ticks = [], new_vars = []\<rparr>"

text \<open>The write to the pipe fails: \<open>stdin.write\<close> raises \<open>BrokenPipeError\<close>.\<close>

definition env_broken_pipe :: "int env" where
  "env_broken_pipe = env0\<lparr>write_error := Some (py ''[Errno 32] Broken pipe'')\<rparr>"

text \<open>A script of \<open>16^8\<close> letters \<open>a\<close>.\<close>

definition big_script :: pystr where
  "big_script = replicate (16 ^ 8) 97"

text \<open>The sample world while a run is in progress.\<close>

definition world_running :: "int world" where
  "world_running = world0\<lparr>NODE_IS_RUNNING := True\<rparr>"

text \<open>
  Lines of the companion process as the monitor meets them: the completion message
  \<open>{"type":"done"}\<close>, a line of log text, a blank line, a line read when the process
  has exited with status 0, an empty string from a process that lives, the end of the
  stream of a process that was killed, and bytes that are not UTF-8. Each line ends with
  a newline, code 10.
\<close>

definition done_line :: line_event where
  "done_line =
     \<lparr>output_line = Some [123, 34, 116, 121, 112, 101, 34, 58, 34, 100, 111, 110, 101, 34, 125, 10],
      poll = None,
      loads = Some (JObject [(py ''type'', JString (py ''done''))])\<rparr>"

definition log_line :: line_event where
  "log_line = \<lparr>output_line = Some (py ''hello'' @ [10]), poll = None, loads = None\<rparr>"

definition blank_line :: line_event where
  "blank_line = \<lparr>output_line = Some [10], poll = None, loads = None\<rparr>"

definition exit_line :: line_event where
  "exit_line = \<lparr>output_line = Some (py ''hello'' @ [10]), poll = Some 0, loads = None\<rparr>"

definition empty_line :: line_event where
  "empty_line = \<lparr>output_line = Some [], poll = None, loads = None\<rparr>"

definition killed_line :: line_event where
  "killed_line = \<lparr>output_line = Some [], poll = Some (- 15), loads = None\<rparr>"

definition garbled_line :: line_event where
  "garbled_line = \<lparr>output_line = None, poll = None, loads = None\<rparr>"

text \<open>
  Iterations of the wait loop: one in which nothing happens; three in which
  \<open>KeyboardInterrupt\<close> is raised, at the first statement of the \<open>try\<close>, while the
  read lock is held, and at the test of the \<open>while\<close>; two at a time when a timeout of
  5 is over; one before which the monitor has read the completion message, and one
  before which it has found the process gone.
\<close>

definition quiet_tick :: tick where
  "quiet_tick = \<lparr>lines = [], interrupt = None, now = 1\<rparr>"

definition interrupt_tick :: tick where
  "interrupt_tick = \<lparr>lines = [], interrupt = Some At_acquire_read, now = 2\<rparr>"

definition interrupt_locked_tick :: tick where
  "interrupt_locked_tick = \<lparr>lines = [], interrupt = Some At_release_read, now = 2\<rparr>"

definition interrupt_test_tick :: tick where
  "interrupt_test_tick = \<lparr>lines = [], interrupt = Some At_while_test, now = 2\<rparr>"

definition late_tick :: tick where
  "late_tick = \<lparr>lines = [], interrupt = None, now = 10\<rparr>"

definition done_tick :: tick where
  "done_tick = \<lparr>lines = [(Current, done_line)], interrupt = None, now = 2\<rparr>"

definition exit_tick :: tick where
  "exit_tick = \<lparr>lines = [(Current, exit_line)], interrupt = None, now = 2\<rparr>"

text \<open>
  Environments of a run: the user interrupts the second iteration; nothing comes back
  and the clock passes the timeout; the completion message arrives and the variables
  \<open>y\<close> and \<open>z\<close> come back; the process exits instead; the completion message
  arrives at once and no variable comes back.
\<close>

definition env_interrupted :: "int env" where
  "env_interrupted = env0\<lparr>ticks := [quiet_tick, interrupt_tick]\<rparr>"

definition env_interrupted_locked :: "int env" where
  "env_interrupted_locked = env0\<lparr>ticks := [quiet_tick, interrupt_locked_tick]\<rparr>"

definition env_interrupted_at_test :: "int env" where
  "env_interrupted_at_test = env0\<lparr>ticks := [quiet_tick, interrupt_test_tick]\<rparr>"

definition env_late :: "int env" where
  "env_late = env0\<lparr>ticks := [quiet_tick, late_tick, late_tick]\<rparr>"

definition env_done :: "int env" where
  "env_done =
     env0\<lparr>ticks := [quiet_tick, done_tick], new_vars := [(py ''y'', 7), (py ''z'', 9)]\<rparr>"

definition env_exit :: "int env" where
  "env_exit =
     env0\<lparr>ticks := [quiet_tick, exit_tick], new_vars := [(py ''y'', 7), (py ''z'', 9)]\<rparr>"

definition env_done_again :: "int env" where
  "env_done_again = env0\<lparr>ticks := [done_tick]\<rparr>"

section \<open>Notions for the proofs\<close>

text \<open>The events that neither pull variables nor write the flag without the write lock.\<close>

definition guarded_event :: "'v event \<Rightarrow> bool" where
  "guarded_event e =
     (case e of
        Sync_from \<Rightarrow> False
      | Flag_write t h v \<Rightarrow> h = Write_locked
      | _ \<Rightarrow> True)"

text \<open>
  \<open>advances w w'\<close>: \<open>w'\<close> is reached from \<open>w\<close> by steps that only add to the trace, pull
  no variables, write the flag only under the write lock, leave the default dictionary
  alone and take process ids from the counter.
\<close>

definition advances :: "'v world \<Rightarrow> 'v world \<Rightarrow> bool" where
  "advances w w' \<longleftrightarrow>
     (\<exists>evs. trace w' = trace w @ evs \<and> list_all guarded_event evs)
   \<and> run_default_vars w' = run_default_vars w
   \<and> next_pid w \<le> next_pid w'
   \<and> (pid (process w) < next_pid w \<longrightarrow>
        pid (process w) \<le> pid (process w') \<and> pid (process w') < next_pid w')"

text \<open>The world in which the wait loop stands when it ends or runs out of iterations.\<close>

fun world_of :: "'v loop_result \<Rightarrow> 'v world" where
  "world_of (Exited w) = w"
| "world_of (Interrupted w) = w"
| "world_of (Waiting w) = w"

text \<open>
  Names for the worlds \<open>run\<close> passes through: before the call of \<open>write\<close>, before the
  loop (after the sample of line 292), and what the end of the loop leads to.
\<close>

definition vars_of :: "(pystr \<times> 'v) list option \<Rightarrow> 'v world \<Rightarrow> (pystr \<times> 'v) list" where
  "vars_of vars_arg w = (case vars_arg of None \<Rightarrow> run_default_vars w | Some d \<Rightarrow> d)"

definition before_write :: "(pystr \<times> 'v) list option \<Rightarrow> 'v world \<Rightarrow> 'v world" where
  "before_write vars_arg w = locked_set_flag Coordinator True (emit (Sync_to (vars_of vars_arg w)) w)"

definition before_loop :: "'v env \<Rightarrow> 'v world \<Rightarrow> 'v world" where
  "before_loop env w3 = snd (get_flag Coordinator (monitor_run (early_lines env) w3))"

definition pulled ::
  "'v env \<Rightarrow> (pystr \<times> 'v) list option \<Rightarrow> (pystr \<times> 'v) list \<Rightarrow> 'v world \<Rightarrow> 'v world" where
  "pulled env vars_arg vars w6 =
     (case vars_arg of
        None \<Rightarrow> (emit Sync_from w6)\<lparr>run_default_vars := assign_all (new_vars env) vars\<rparr>
      | Some d \<Rightarrow> emit Sync_from w6)"

definition after_loop ::
  "'v env \<Rightarrow> (pystr \<times> 'v) list option \<Rightarrow> (pystr \<times> 'v) list \<Rightarrow> 'v loop_result
     \<Rightarrow> ('v outcome \<times> 'v world) option" where
  "after_loop env vars_arg vars r =
     (case r of
        Waiting w6 \<Rightarrow> None
      | Interrupted w6 \<Rightarrow> Some (Raised_KeyboardInterrupt, w6)
      | Exited w6 \<Rightarrow>
          Some (Returned (Some (assign_all (new_vars env) vars)), pulled env vars_arg vars w6))"

text \<open>
  \<open>reads_guarded w w'\<close>: from \<open>w\<close> to \<open>w'\<close> the flag was read under the read lock only,
  and no writer holds the lock in \<open>w'\<close>.
\<close>

definition reads_guarded :: "'v world \<Rightarrow> 'v world \<Rightarrow> bool" where
  "reads_guarded w w' \<longleftrightarrow>
     \<not> writer (NODE_LOCK w')
   \<and> (\<exists>evs. trace w' = trace w @ evs \<and> (\<forall>t h. Flag_read t h \<in> set evs \<longrightarrow> h = Read_locked))"

text \<open>
  The statements of the wait loop when nothing interrupts them: lines 296 to 298, where
  the flag is sampled under the read lock, and lines 301 to 305, the branch taken when
  the time is up.
\<close>

definition loop_sample :: "'v world \<Rightarrow> bool \<times> 'v world" where
  "loop_sample w =
     (let w1 = acquire_read Coordinator w;
          (flag, w2) = get_flag Coordinator w1
      in (flag, release_read Coordinator w2))"

definition on_timeout :: "'v env \<Rightarrow> int \<Rightarrow> 'v world \<Rightarrow> 'v world" where
  "on_timeout env timeout w =
     emit (Print_took_longer timeout) (locked_set_flag Coordinator False (cancel env True w))"

text \<open>
  The wait loop of a call of \<open>run\<close>: how it ends, or where it stands when the
  iterations of the environment are used up. \<open>None\<close> when the dispatch has failed and
  the call never comes to its loop.
\<close>

definition run_loop ::
  "'v env \<Rightarrow> pystr \<Rightarrow> (pystr \<times> 'v) list option \<Rightarrow> int option \<Rightarrow> 'v world
     \<Rightarrow> 'v loop_result option" where
  "run_loop env script vars_arg timeout w =
     (case write_try env script (before_write vars_arg w) of
        Inl failure \<Rightarrow> None
      | Inr w3 \<Rightarrow>
          Some (wait_loop env timeout (start_time env)
                  (NODE_IS_RUNNING (monitor_run (early_lines env) w3)) (ticks env)
                  (before_loop env w3)))"


section \<open>Properties of the frame\<close>

lemma replicate_numeral_unfold: "replicate (numeral k) x = x # replicate (pred_numeral k) x"
  by (simp add: numeral_eq_Suc)

lemma hex_digits_length_le: "n < 16 ^ k \<Longrightarrow> 0 < k \<Longrightarrow> length (hex_digits n) \<le> k"
proof (induction n arbitrary: k rule: hex_digits.induct)
  case (1 n)
  show ?case
  proof (cases "n < 16")
    case True
    then show ?thesis using 1(3) by (simp add: hex_digits.simps[of n])
  next
    case False
    then obtain j where k: "k = Suc j" using 1(3) by (cases k) auto
    with False 1(2) have j0: "0 < j" by (cases j) auto
    have "n < 16 * 16 ^ j" using 1(2) k by simp
    then have "n div 16 < 16 ^ j" by (simp add: less_mult_imp_div_less mult.commute)
    from 1(1)[OF False this j0] show ?thesis using False k
      by (simp add: hex_digits.simps[of n])
  qed
qed

lemma hex_digits_nonempty: "hex_digits n \<noteq> []"
  by (simp add: hex_digits.simps[of n])

lemma hex_digit_range: "d < 16 \<Longrightarrow> (48 \<le> hex_digit d \<and> hex_digit d \<le> 57) \<or> (97 \<le> hex_digit d \<and> hex_digit d \<le> 102)"
  by (auto simp: hex_digit_def)

lemma hex_digits_range:
  "c \<in> set (hex_digits n) \<Longrightarrow> (48 \<le> c \<and> c \<le> 57) \<or> (97 \<le> c \<and> c \<le> 102)"
proof (induction n rule: hex_digits.induct)
  case (1 n)
  show ?case
  proof (cases "n < 16")
    case True
    with 1(2) have "c = hex_digit n" by (simp add: hex_digits.simps[of n])
    with True show ?thesis using hex_digit_range[of n] by simp
  next
    case False
    with 1(2) have "c \<in> set (hex_digits (n div 16)) \<or> c = hex_digit (n mod 16)"
      by (auto simp add: hex_digits.simps[of n])
    then show ?thesis
    proof
      assume "c \<in> set (hex_digits (n div 16))"
      with 1(1)[OF False] show ?thesis by simp
    next
      assume "c = hex_digit (n mod 16)"
      then show ?thesis using hex_digit_range[of "n mod 16"] by simp
    qed
  qed
qed

lemma hex_value_acc_append:
  "hex_value_acc a (xs @ ys) =
     (case hex_value_acc a xs of None \<Rightarrow> None | Some b \<Rightarrow> hex_value_acc b ys)"
  by (induction xs arbitrary: a) (auto split: option.splits)

lemma hex_digit_value_hex_digit: "d < 16 \<Longrightarrow> hex_digit_value (hex_digit d) = Some d"
  by (auto simp: hex_digit_value_def hex_digit_def)

lemma hex_value_acc_zeros: "hex_value_acc 0 (replicate k 48 @ xs) = hex_value_acc 0 xs"
  by (induction k) (auto simp: hex_digit_value_def)

lemma hex_value_acc_hex_digits: "hex_value_acc 0 (hex_digits n) = Some n"
proof (induction n rule: hex_digits.induct)
  case (1 n)
  show ?case
  proof (cases "n < 16")
    case True
    then show ?thesis by (simp add: hex_digits.simps[of n] hex_digit_value_hex_digit)
  next
    case False
    with 1 show ?thesis
      by (simp add: hex_digits.simps[of n] hex_value_acc_append hex_digit_value_hex_digit)
  qed
qed

lemma hex_value_padded: "hex_value (replicate k 48 @ hex_digits n) = Some n"
  by (simp add: hex_value_def hex_value_acc_zeros hex_value_acc_hex_digits)

lemma zfill_hex_digits:
  "zfill 8 (hex_digits n) =
     (if 8 \<le> length (hex_digits n) then hex_digits n
      else replicate (8 - length (hex_digits n)) 48 @ hex_digits n)"
proof (cases "hex_digits n")
  case Nil
  then show ?thesis using hex_digits_nonempty[of n] by simp
next
  case (Cons c rest)
  then have "c \<in> set (hex_digits n)" by simp
  from hex_digits_range[OF this] have "c \<noteq> 43" "c \<noteq> 45" by auto
  with Cons show ?thesis by (simp add: zfill_def)
qed

lemma format_04x_ascii: "c \<in> set (format_04x n) \<Longrightarrow> c < 128"
  using hex_digits_range[of c n] by (auto simp: format_04x_def)

lemma escape_char_ascii: "c \<in> set (escape_char x) \<Longrightarrow> c < 128"
  by (auto simp: escape_char_def dest: format_04x_ascii split: if_splits)

lemma json_string_ascii: "c \<in> set (json_string s) \<Longrightarrow> c < 128"
  by (auto simp: json_string_def dest: escape_char_ascii)

lemma json_dumps_script_ascii: "c \<in> set (json_dumps_script s) \<Longrightarrow> c < 128"
  by (auto simp: json_dumps_script_def py_def dest: json_string_ascii)

lemma encode_utf8_ascii: "(\<And>c. c \<in> set cs \<Longrightarrow> c < 128) \<Longrightarrow> encode_utf8 cs = Some cs"
  by (induction cs) (auto simp: utf8_char_def)

lemma encode_utf8_json: "encode_utf8 (json_dumps_script s) = Some (json_dumps_script s)"
  by (rule encode_utf8_ascii) (rule json_dumps_script_ascii)

lemma frame_small:
  assumes "length (json_dumps_script s) < 16 ^ 8"
  shows "frame s =
     Inr ([69] @ replicate (8 - length (hex_digits (length (json_dumps_script s)))) 48
            @ hex_digits (length (json_dumps_script s)) @ [67] @ json_dumps_script s)"
proof -
  let ?n = "length (json_dumps_script s)"
  let ?h = "hex_digits ?n"
  let ?str = "[69] @ replicate (8 - length ?h) 48 @ ?h @ [67] @ json_dumps_script s"
  have len: "length ?h \<le> 8" using hex_digits_length_le[OF assms] by simp
  have z: "zfill 8 ?h = replicate (8 - length ?h) 48 @ ?h"
    using len by (simp add: zfill_hex_digits)
  have "\<And>c. c \<in> set ?str \<Longrightarrow> c < 128"
    using hex_digits_range json_dumps_script_ascii by fastforce
  then have enc: "encode_utf8 ?str = Some ?str" by (rule encode_utf8_ascii)
  have not_large: "\<not> (16::nat) ^ 8 \<le> ?n" using assms by simp
  show ?thesis
    unfolding frame_def Let_def
    using len not_large z enc by (simp add: py_hex_def py_def)
qed

lemma frame_large:
  assumes "16 ^ 8 \<le> length (json_dumps_script s)"
  shows "frame s = Inl (py ''exceptions must derive from BaseException'')"
  using assms by (simp add: frame_def Let_def)

section \<open>The effect of the basic operations\<close>

lemma locked_set_flag_effect:
  "locked_set_flag t v w =
     w\<lparr>NODE_IS_RUNNING := v,
       NODE_LOCK := (NODE_LOCK w)\<lparr>writer := False\<rparr>,
       trace := trace w @ [Acquire_write t, Flag_write t Write_locked v, Release_write t]\<rparr>"
  by (simp add: locked_set_flag_def release_write_def set_flag_def acquire_write_def emit_def
      held_mode_def)

lemma cancel_restart_effect:
  "cancel env True w =
     w\<lparr>process := \<lparr>pid = next_pid w, returncode = None, stop_event = False,
                    monitor_live = True\<rparr>,
       replaced := replaced w @ [(process w)\<lparr>stop_event := True\<rparr>],
       next_pid := next_pid w + 1,
       trace := trace w @ [Kill (pid (process w))]
         @ (case os_kill env (process w) of
              None \<Rightarrow> [Stop_monitor (pid (process w))]
            | Some e \<Rightarrow> [Print e])
         @ [Stop_monitor (pid (process w)), Spawn (next_pid w)]\<rparr>"
  by (simp add: cancel_def Let_def init_process_def nstdproc_stop_def py_print_def emit_def
      split: option.split)

lemma write_try_small:
  assumes "length (json_dumps_script s) < 16 ^ 8"
  shows "\<exists>digits.
     length digits = 8 \<and> hex_value digits = Some (length (json_dumps_script s)) \<and>
     write_try env s w =
       (case write_error env of
          Some e \<Rightarrow> Inl (e, emit (Stdin_write (pid (process w)) ([69] @ digits @ [67] @ json_dumps_script s)) w)
        | None \<Rightarrow>
            (case flush_error env of
               Some e \<Rightarrow> Inl (e, emit (Stdin_flush (pid (process w))) (emit (Stdin_write (pid (process w)) ([69] @ digits @ [67] @ json_dumps_script s)) w))
             | None \<Rightarrow> Inr (emit (Stdin_flush (pid (process w))) (emit (Stdin_write (pid (process w)) ([69] @ digits @ [67] @ json_dumps_script s)) w))))"
proof -
  let ?n = "length (json_dumps_script s)"
  let ?digits = "replicate (8 - length (hex_digits ?n)) 48 @ hex_digits ?n"
  have "length (hex_digits ?n) \<le> 8" using hex_digits_length_le[OF assms] by simp
  then have "length ?digits = 8" by simp
  moreover have "hex_value ?digits = Some ?n" by (rule hex_value_padded)
  moreover have "write_try env s w =
       (case write_error env of
          Some e \<Rightarrow> Inl (e, emit (Stdin_write (pid (process w)) ([69] @ ?digits @ [67] @ json_dumps_script s)) w)
        | None \<Rightarrow>
            (case flush_error env of
               Some e \<Rightarrow> Inl (e, emit (Stdin_flush (pid (process w))) (emit (Stdin_write (pid (process w)) ([69] @ ?digits @ [67] @ json_dumps_script s)) w))
             | None \<Rightarrow> Inr (emit (Stdin_flush (pid (process w))) (emit (Stdin_write (pid (process w)) ([69] @ ?digits @ [67] @ json_dumps_script s)) w))))"
    by (simp add: write_try_def frame_small[OF assms] Let_def emit_def split: option.split)
  ultimately show ?thesis by blast
qed

lemma write_try_large:
  assumes "16 ^ 8 \<le> length (json_dumps_script s)"
  shows "write_try env s w = Inl (py ''exceptions must derive from BaseException'', w)"
  by (simp add: write_try_def frame_large[OF assms])

lemma node_write_trace_small:
  assumes "length (json_dumps_script s) < 16 ^ 8"
  shows "\<exists>digits rest.
     length digits = 8 \<and> hex_value digits = Some (length (json_dumps_script s)) \<and>
     trace (snd (node_write env s w)) =
       trace w @ Stdin_write (pid (process w)) ([69] @ digits @ [67] @ json_dumps_script s) # rest"
proof -
  from write_try_small[OF assms, of env w] obtain digits where
    d: "length digits = 8" "hex_value digits = Some (length (json_dumps_script s))" and
    w: "write_try env s w =
       (case write_error env of
          Some e \<Rightarrow> Inl (e, emit (Stdin_write (pid (process w)) ([69] @ digits @ [67] @ json_dumps_script s)) w)
        | None \<Rightarrow>
            (case flush_error env of
               Some e \<Rightarrow> Inl (e, emit (Stdin_flush (pid (process w))) (emit (Stdin_write (pid (process w)) ([69] @ digits @ [67] @ json_dumps_script s)) w))
             | None \<Rightarrow> Inr (emit (Stdin_flush (pid (process w))) (emit (Stdin_write (pid (process w)) ([69] @ digits @ [67] @ json_dumps_script s)) w))))"
    by blast
  have "\<exists>rest. trace (snd (node_write env s w)) =
       trace w @ Stdin_write (pid (process w)) ([69] @ digits @ [67] @ json_dumps_script s) # rest"
    by (simp add: node_write_def write_except_def w Let_def emit_def py_print_def
        locked_set_flag_effect cancel_restart_effect split: option.split)
  with d show ?thesis by blast
qed

lemma json_dumps_script_x:
  "json_dumps_script (py ''x'') = [123, 34, 115, 99, 114, 105, 112, 116, 34, 58, 32, 34, 120, 34, 125]"
  by (simp add: json_dumps_script_def json_string_def escape_char_def py_def)

section \<open>A dispatch that fails\<close>

lemma write_except_fields:
  "NODE_IS_RUNNING (write_except env e w) = False"
  "NODE_LOCK (write_except env e w) = (NODE_LOCK w)\<lparr>writer := False\<rparr>"
  "process (write_except env e w) =
     \<lparr>pid = next_pid w, returncode = None, stop_event = False, monitor_live = True\<rparr>"
  "replaced (write_except env e w) = replaced w @ [(process w)\<lparr>stop_event := True\<rparr>]"
  "next_pid (write_except env e w) = next_pid w + 1"
  "run_default_vars (write_except env e w) = run_default_vars w"
  by (simp_all add: write_except_def Let_def py_print_def emit_def locked_set_flag_effect
      cancel_restart_effect)

lemma write_except_trace:
  "\<exists>evs. trace (write_except env e w) = trace w @ evs
    \<and> Sync_from \<notin> set evs
    \<and> (\<forall>t h. Flag_read t h \<notin> set evs)
    \<and> (\<forall>p b. Stdin_write p b \<notin> set evs)
    \<and> (\<forall>t h v. Flag_write t h v \<in> set evs \<longrightarrow> h = Write_locked \<and> \<not> v)
    \<and> Kill (pid (process w)) \<in> set evs
    \<and> Spawn (next_pid w) \<in> set evs
    \<and> Flag_write Coordinator Write_locked False \<in> set evs"
  by (cases "os_kill env (process w)")
    (simp_all add: write_except_def Let_def py_print_def emit_def locked_set_flag_effect
      cancel_restart_effect)

lemma run_dispatch_failed:
  assumes "write_try env script
             (locked_set_flag Coordinator True
               (emit (Sync_to (case vars_arg of None \<Rightarrow> run_default_vars w | Some d \<Rightarrow> d)) w))
           = Inl (e, w')"
  shows "run env script vars_arg timeout w =
    Some (Returned None, py_print (py ''Could not run script'') (write_except env e w'))"
  using assms by (simp add: run_def Let_def node_write_def)

lemma emit_fields:
  "NODE_IS_RUNNING (emit e w) = NODE_IS_RUNNING w"
  "NODE_LOCK (emit e w) = NODE_LOCK w"
  "process (emit e w) = process w"
  "replaced (emit e w) = replaced w"
  "next_pid (emit e w) = next_pid w"
  "run_default_vars (emit e w) = run_default_vars w"
  "trace (emit e w) = trace w @ [e]"
  by (simp_all add: emit_def)

lemma locked_set_flag_fields:
  "NODE_IS_RUNNING (locked_set_flag t v w) = v"
  "NODE_LOCK (locked_set_flag t v w) = (NODE_LOCK w)\<lparr>writer := False\<rparr>"
  "process (locked_set_flag t v w) = process w"
  "replaced (locked_set_flag t v w) = replaced w"
  "next_pid (locked_set_flag t v w) = next_pid w"
  "run_default_vars (locked_set_flag t v w) = run_default_vars w"
  "trace (locked_set_flag t v w) =
     trace w @ [Acquire_write t, Flag_write t Write_locked v, Release_write t]"
  by (simp_all add: locked_set_flag_effect)

lemma write_try_io_failure:
  assumes "length (json_dumps_script s) < 16 ^ 8"
    and "write_error env \<noteq> None \<or> flush_error env \<noteq> None"
  shows "\<exists>e w'. write_try env s w = Inl (e, w')
     \<and> NODE_IS_RUNNING w' = NODE_IS_RUNNING w \<and> NODE_LOCK w' = NODE_LOCK w
     \<and> process w' = process w \<and> next_pid w' = next_pid w
     \<and> run_default_vars w' = run_default_vars w
     \<and> (\<exists>evs. trace w' = trace w @ evs \<and> Sync_from \<notin> set evs
          \<and> (\<forall>t h. Flag_read t h \<notin> set evs) \<and> (\<forall>t h v. Flag_write t h v \<notin> set evs))"
proof -
  from write_try_small[OF assms(1), of env w] obtain digits where
    w: "write_try env s w =
       (case write_error env of
          Some e \<Rightarrow> Inl (e, emit (Stdin_write (pid (process w)) ([69] @ digits @ [67] @ json_dumps_script s)) w)
        | None \<Rightarrow>
            (case flush_error env of
               Some e \<Rightarrow> Inl (e, emit (Stdin_flush (pid (process w))) (emit (Stdin_write (pid (process w)) ([69] @ digits @ [67] @ json_dumps_script s)) w))
             | None \<Rightarrow> Inr (emit (Stdin_flush (pid (process w))) (emit (Stdin_write (pid (process w)) ([69] @ digits @ [67] @ json_dumps_script s)) w))))"
    by blast
  show ?thesis
  proof (cases "write_error env")
    case (Some e)
    then show ?thesis by (simp add: w emit_fields)
  next
    case None
    with assms(2) obtain e where "flush_error env = Some e" by auto
    with None show ?thesis by (simp add: w emit_fields)
  qed
qed

lemma frame_x:
  "frame (py ''x'') = Inr ([69, 48, 48, 48, 48, 48, 48, 48, 102, 67]
             @ [123, 34, 115, 99, 114, 105, 112, 116, 34, 58, 32, 34, 120, 34, 125])"
  using frame_small[of "py ''x''"]
  by (simp add: json_dumps_script_x hex_digits.simps hex_digit_def replicate_numeral_unfold)

section \<open>A payload of \<open>16^8\<close> characters or more\<close>

lemma escape_replicate_a: "concat (map escape_char (replicate n 97)) = replicate n 97"
  by (induction n) (simp_all add: escape_char_def)

lemma length_json_dumps_script_replicate_a:
  "length (json_dumps_script (replicate n 97)) = n + 14"
  by (simp add: json_dumps_script_def json_string_def escape_replicate_a py_def escape_char_def)

lemma big_script_is_big: "16 ^ 8 \<le> length (json_dumps_script big_script)"
  unfolding big_script_def length_json_dumps_script_replicate_a by simp

lemma run_oversized:
  assumes "16 ^ 8 \<le> length (json_dumps_script script)"
  shows "run env script vars_arg timeout w =
    Some (Returned None,
      py_print (py ''Could not run script'')
        (write_except env (py ''exceptions must derive from BaseException'')
          (locked_set_flag Coordinator True
            (emit (Sync_to (case vars_arg of None \<Rightarrow> run_default_vars w | Some d \<Rightarrow> d)) w))))"
  by (rule run_dispatch_failed) (rule write_try_large[OF assms])

lemma run_oversized_facts:
  assumes "16 ^ 8 \<le> length (json_dumps_script script)"
  shows "\<exists>w' evs. run env script vars_arg timeout w = Some (Returned None, w')
          \<and> trace w' = trace w @ evs
          \<and> (\<forall>p b. Stdin_write p b \<notin> set evs)
          \<and> Sync_from \<notin> set evs
          \<and> (\<forall>t h. Flag_read t h \<notin> set evs)
          \<and> Kill (pid (process w)) \<in> set evs
          \<and> Spawn (next_pid w) \<in> set evs
          \<and> Flag_write Coordinator Write_locked False \<in> set evs
          \<and> pid (process w') = next_pid w
          \<and> \<not> NODE_IS_RUNNING w'"
proof -
  let ?vars = "case vars_arg of None \<Rightarrow> run_default_vars w | Some d \<Rightarrow> d"
  let ?w2 = "locked_set_flag Coordinator True (emit (Sync_to ?vars) w)"
  let ?e = "py ''exceptions must derive from BaseException''"
  let ?w' = "py_print (py ''Could not run script'') (write_except env ?e ?w2)"
  from write_except_trace[of env ?e ?w2] obtain evs' where
    t': "trace (write_except env ?e ?w2) = trace ?w2 @ evs'" "Sync_from \<notin> set evs'"
      "\<forall>t h. Flag_read t h \<notin> set evs'" "\<forall>p b. Stdin_write p b \<notin> set evs'"
      "Kill (pid (process ?w2)) \<in> set evs'"
      "Spawn (next_pid ?w2) \<in> set evs'" "Flag_write Coordinator Write_locked False \<in> set evs'"
    by blast
  let ?evs = "[Sync_to ?vars, Acquire_write Coordinator,
      Flag_write Coordinator Write_locked True, Release_write Coordinator] @ evs'
      @ [Print (py ''Could not run script'')]"
  have "trace ?w' = trace w @ ?evs"
    by (simp add: py_print_def emit_fields t' locked_set_flag_fields)
  moreover have "pid (process ?w') = next_pid w" "\<not> NODE_IS_RUNNING ?w'"
    by (simp_all add: py_print_def emit_fields write_except_fields locked_set_flag_fields)
  moreover have "pid (process ?w2) = pid (process w)" "next_pid ?w2 = next_pid w"
    by (simp_all add: locked_set_flag_fields emit_fields)
  ultimately show ?thesis
    using run_oversized[OF assms, of env vars_arg timeout w] t'
    by (intro exI[of _ ?w'] exI[of _ ?evs]) auto
qed

section \<open>The monitor\<close>

lemma strip_hello: "strip (py ''hello'' @ [10]) = py ''hello''"
  by (simp add: strip_def py_def py_isspace_def)

lemma strip_newline: "strip [10] = []"
  by (simp add: strip_def py_isspace_def)

lemma monitor_iter_live:
  assumes "output_line ev = Some out" and "out \<noteq> []" and "poll ev = None"
  shows "monitor_iter ev w =
     (Continue, if is_done_message ev then locked_set_flag Monitor False w
                else print_stripped out w)"
  using assms
  by (auto simp: monitor_iter_def is_done_message_def split: option.splits bool.splits)

lemma monitor_iter_exited:
  assumes "output_line ev = Some out" and "poll ev \<noteq> None"
  shows "monitor_iter ev w = (Break, locked_set_flag Monitor False w)"
  using assms by (simp add: monitor_iter_def)

lemma monitor_iter_eof:
  assumes "output_line ev = Some []" and "poll ev = None"
  shows "monitor_iter ev w = (Continue, w)"
  using assms by (simp add: monitor_iter_def)

lemma monitor_iter_undecodable:
  assumes "output_line ev = None"
  shows "monitor_iter ev w = (Uncaught, w)"
  using assms by (simp add: monitor_iter_def)

lemma print_stripped_fields:
  "NODE_IS_RUNNING (print_stripped out w) = NODE_IS_RUNNING w"
  "NODE_LOCK (print_stripped out w) = NODE_LOCK w"
  "process (print_stripped out w) = process w"
  "replaced (print_stripped out w) = replaced w"
  "next_pid (print_stripped out w) = next_pid w"
  "run_default_vars (print_stripped out w) = run_default_vars w"
  "trace (print_stripped out w) =
     trace w @ (if out \<noteq> [] \<and> strip out \<noteq> [] then [Print (strip out)] else [])"
  by (simp_all add: print_stripped_def py_print_def emit_def)

lemma monitor_iter_process:
  "process (snd (monitor_iter ev w)) = process w"
  "replaced (snd (monitor_iter ev w)) = replaced w"
  by (simp_all add: monitor_iter_def locked_set_flag_fields print_stripped_fields
      split: option.split bool.split)

lemma monitor_thread_world:
  "snd (monitor_thread ev p w) = (if monitor_live p then snd (monitor_iter ev w) else w)"
  by (cases "monitor_iter ev w")
    (simp add: monitor_thread_def split: control.split)

lemma monitor_thread_proc:
  "pid (fst (monitor_thread ev p w)) = pid p"
  "stop_event (fst (monitor_thread ev p w)) = stop_event p"
  by (cases "monitor_iter ev w"; simp add: monitor_thread_def split: control.split)+

text \<open>
  A line changes the world as the body of the loop does, and beyond that only what is
  kept about the thread that reads it.
\<close>

lemma monitor_thread_idle: "\<not> monitor_live p \<Longrightarrow> monitor_thread ev p w = (p, w)"
  by (simp add: monitor_thread_def)

lemma monitor_line_shape:
  "monitor_line r ev w = w
   \<or> (\<exists>p. monitor_line r ev w = (snd (monitor_iter ev w))\<lparr>process := p\<rparr>
          \<and> pid p = pid (process w) \<and> stop_event p = stop_event (process w))
   \<or> (\<exists>ps. monitor_line r ev w = (snd (monitor_iter ev w))\<lparr>replaced := ps\<rparr>
          \<and> length ps = length (replaced w))"
proof (cases r)
  case Current
  have m: "monitor_line r ev w =
      (snd (monitor_thread ev (process w) w))\<lparr>process := fst (monitor_thread ev (process w) w)\<rparr>"
    by (simp add: monitor_line_def Current case_prod_beta)
  show ?thesis
  proof (cases "monitor_live (process w)")
    case False
    then show ?thesis by (simp add: m monitor_thread_idle)
  next
    case True
    then have "monitor_line r ev w =
        (snd (monitor_iter ev w))\<lparr>process := fst (monitor_thread ev (process w) w)\<rparr>"
      by (simp add: m monitor_thread_world)
    then show ?thesis using monitor_thread_proc[of ev "process w" w] by blast
  qed
next
  case (Replaced i)
  show ?thesis
  proof (cases "i < length (replaced w)")
    case False
    then show ?thesis by (simp add: monitor_line_def Replaced)
  next
    case less: True
    let ?mt = "monitor_thread ev (replaced w ! i) w"
    have m: "monitor_line r ev w = (snd ?mt)\<lparr>replaced := (replaced (snd ?mt))[i := fst ?mt]\<rparr>"
      using less by (simp add: monitor_line_def Replaced case_prod_beta)
    show ?thesis
    proof (cases "monitor_live (replaced w ! i)")
      case False
      then show ?thesis by (simp add: m monitor_thread_idle)
    next
      case True
      then have "monitor_line r ev w =
          (snd (monitor_iter ev w))\<lparr>replaced := (replaced w)[i := fst ?mt]\<rparr>"
        by (simp add: m monitor_thread_world monitor_iter_process)
      then show ?thesis by auto
    qed
  qed
qed

section \<open>What a step of the program can do to the world\<close>

lemma advances_refl: "advances w w"
  by (simp add: advances_def)

lemma advances_trans:
  assumes "advances w w'" and "advances w' w''"
  shows "advances w w''"
proof -
  from assms(1) obtain evs where
    1: "trace w' = trace w @ evs" "list_all guarded_event evs"
    unfolding advances_def by blast
  from assms(2) obtain evs' where
    2: "trace w'' = trace w' @ evs'" "list_all guarded_event evs'"
    unfolding advances_def by blast
  have "trace w'' = trace w @ (evs @ evs')" "list_all guarded_event (evs @ evs')"
    using 1 2 by simp_all
  then have "\<exists>evs. trace w'' = trace w @ evs \<and> list_all guarded_event evs"
    by blast
  moreover have "run_default_vars w'' = run_default_vars w" "next_pid w \<le> next_pid w''"
    "pid (process w) < next_pid w \<longrightarrow>
        pid (process w) \<le> pid (process w'') \<and> pid (process w'') < next_pid w''"
    using assms unfolding advances_def by auto
  ultimately show ?thesis unfolding advances_def by blast
qed

lemma advances_thread_update:
  "advances w w' \<Longrightarrow> pid p = pid (process w') \<Longrightarrow> advances w (w'\<lparr>process := p\<rparr>)"
  "advances w w' \<Longrightarrow> advances w (w'\<lparr>replaced := ps\<rparr>)"
  by (simp_all add: advances_def)

lemma advances_locked_set_flag: "advances w (locked_set_flag t v w)"
  by (simp add: advances_def locked_set_flag_fields guarded_event_def)

lemma advances_cancel: "advances w (cancel env True w)"
  by (cases "os_kill env (process w)")
    (simp_all add: advances_def cancel_restart_effect guarded_event_def)

lemma advances_py_print: "advances w (py_print s w)"
  by (simp add: advances_def py_print_def emit_fields guarded_event_def)

lemma advances_print_stripped: "advances w (print_stripped out w)"
  by (simp add: advances_def print_stripped_fields guarded_event_def)

lemma advances_monitor_iter: "advances w (snd (monitor_iter ev w))"
  by (simp add: monitor_iter_def advances_locked_set_flag advances_print_stripped advances_refl
      split: option.split bool.split)

lemma advances_monitor_line: "advances w (monitor_line r ev w)"
  using monitor_line_shape[of r ev w] advances_monitor_iter[of w ev]
  by (auto simp: advances_refl monitor_iter_process intro!: advances_thread_update)

lemma advances_monitor_run: "advances w (monitor_run evs w)"
proof (induction evs arbitrary: w)
  case Nil
  show ?case by (simp add: advances_refl)
next
  case (Cons rev evs)
  obtain r ev where rev: "rev = (r, ev)" by (cases rev)
  show ?case
    using advances_trans[OF advances_monitor_line Cons] by (simp add: rev)
qed

lemma loop_sample_effect:
  "loop_sample w =
     (NODE_IS_RUNNING w,
      w\<lparr>NODE_LOCK := (NODE_LOCK w)\<lparr>readers := readers (NODE_LOCK w) + 1 - 1\<rparr>,
        trace := trace w @ [Acquire_read Coordinator,
          Flag_read Coordinator (if writer (NODE_LOCK w) then Write_locked else Read_locked),
          Release_read Coordinator]\<rparr>)"
  by (simp add: loop_sample_def acquire_read_def get_flag_def release_read_def emit_def
      held_mode_def Let_def)

lemma advances_loop_sample: "advances w (snd (loop_sample w))"
  by (simp add: advances_def loop_sample_effect guarded_event_def)

lemma on_timeout_fields:
  "NODE_IS_RUNNING (on_timeout env limit w) = False"
  "NODE_LOCK (on_timeout env limit w) = (NODE_LOCK w)\<lparr>writer := False\<rparr>"
  "process (on_timeout env limit w) =
     \<lparr>pid = next_pid w, returncode = None, stop_event = False, monitor_live = True\<rparr>"
  "replaced (on_timeout env limit w) = replaced w @ [(process w)\<lparr>stop_event := True\<rparr>]"
  "next_pid (on_timeout env limit w) = next_pid w + 1"
  "run_default_vars (on_timeout env limit w) = run_default_vars w"
  "trace (on_timeout env limit w) =
     trace w @ [Kill (pid (process w))]
       @ (case os_kill env (process w) of
            None \<Rightarrow> [Stop_monitor (pid (process w))]
          | Some e \<Rightarrow> [Print e])
       @ [Stop_monitor (pid (process w)), Spawn (next_pid w),
          Acquire_write Coordinator, Flag_write Coordinator Write_locked False,
          Release_write Coordinator, Print_took_longer limit]"
  by (simp_all add: on_timeout_def emit_fields locked_set_flag_fields cancel_restart_effect)

lemma on_interrupt_fields:
  "NODE_IS_RUNNING (on_interrupt env w) = False"
  "NODE_LOCK (on_interrupt env w) = (NODE_LOCK w)\<lparr>writer := False\<rparr>"
  "process (on_interrupt env w) =
     \<lparr>pid = next_pid w, returncode = None, stop_event = False, monitor_live = True\<rparr>"
  "replaced (on_interrupt env w) = replaced w @ [(process w)\<lparr>stop_event := True\<rparr>]"
  "next_pid (on_interrupt env w) = next_pid w + 1"
  "run_default_vars (on_interrupt env w) = run_default_vars w"
  "trace (on_interrupt env w) =
     trace w @ [Kill (pid (process w))]
       @ (case os_kill env (process w) of
            None \<Rightarrow> [Stop_monitor (pid (process w))]
          | Some e \<Rightarrow> [Print e])
       @ [Stop_monitor (pid (process w)), Spawn (next_pid w),
          Acquire_write Coordinator, Flag_write Coordinator Write_locked False,
          Release_write Coordinator, Print (py ''Process was interrupted.'')]"
  by (simp_all add: on_interrupt_def py_print_def emit_fields locked_set_flag_fields
      cancel_restart_effect)

lemma advances_on_timeout: "advances w (on_timeout env limit w)"
  by (cases "os_kill env (process w)")
    (simp_all add: advances_def on_timeout_fields guarded_event_def)

lemma advances_on_interrupt: "advances w (on_interrupt env w)"
  by (cases "os_kill env (process w)")
    (simp_all add: advances_def on_interrupt_fields guarded_event_def)

section \<open>The body of the \<open>try\<close>\<close>

text \<open>The worlds in which the branch of the timeout can be left, one statement after another.\<close>

lemma timeout_branch_cases:
  "timeout_branch env limit raised w =
     (if raised = Some At_cancel then Inl w
      else if raised = Some At_acquire_write then Inl (cancel env True w)
      else if raised = Some At_clear then Inl (acquire_write Coordinator (cancel env True w))
      else if raised = Some At_release_write
        then Inl (set_flag Coordinator False (acquire_write Coordinator (cancel env True w)))
      else if raised = Some At_print
        then Inl (locked_set_flag Coordinator False (cancel env True w))
      else Inr (on_timeout env limit w))"
  by (simp add: timeout_branch_def on_timeout_def locked_set_flag_def Let_def)

lemma advances_acquire_write: "advances w (acquire_write t w)"
  by (simp add: advances_def acquire_write_def emit_def guarded_event_def)

lemma advances_write_held:
  "advances w (set_flag t v (acquire_write t w))"
  by (simp add: advances_def acquire_write_def set_flag_def emit_def guarded_event_def
      held_mode_def)

lemma advances_timeout_branch:
  "timeout_branch env limit raised w = Inl w' \<Longrightarrow> advances w w'"
  "timeout_branch env limit raised w = Inr w' \<Longrightarrow> advances w w'"
proof -
  let ?c = "cancel env True w"
  have c: "advances w ?c" by (rule advances_cancel)
  have 1: "advances w (acquire_write Coordinator ?c)"
    by (rule advances_trans[OF c advances_acquire_write])
  have 2: "advances w (set_flag Coordinator False (acquire_write Coordinator ?c))"
    by (rule advances_trans[OF c advances_write_held])
  have 3: "advances w (locked_set_flag Coordinator False ?c)"
    by (rule advances_trans[OF c advances_locked_set_flag])
  have 4: "advances w (on_timeout env limit w)" by (rule advances_on_timeout)
  show "timeout_branch env limit raised w = Inl w' \<Longrightarrow> advances w w'"
    using c 1 2 3 by (auto simp: timeout_branch_cases advances_refl split: if_splits)
  show "timeout_branch env limit raised w = Inr w' \<Longrightarrow> advances w w'"
    using 4 by (auto simp: timeout_branch_cases split: if_splits)
qed

lemma try_body_cases:
  "try_body env timeout start t w =
     (if interrupt t = Some At_acquire_read then Inl w
      else if interrupt t = Some At_sample then Inl (acquire_read Coordinator w)
      else if interrupt t = Some At_release_read
        then Inl (snd (get_flag Coordinator (acquire_read Coordinator w)))
      else if interrupt t = Some At_timeout_test then Inl (snd (loop_sample w))
      else
        (case timeout of
           None \<Rightarrow> Inr (NODE_IS_RUNNING w, snd (loop_sample w))
         | Some limit \<Rightarrow>
             if now t - start > limit
             then (case timeout_branch env limit (interrupt t) (snd (loop_sample w)) of
                     Inl w4 \<Rightarrow> Inl w4
                   | Inr w4 \<Rightarrow> Inr (NODE_IS_RUNNING w, w4))
             else Inr (NODE_IS_RUNNING w, snd (loop_sample w))))"
  by (simp add: try_body_def loop_sample_def Let_def get_flag_def acquire_read_def emit_def
      split: option.split)

lemma try_body_quiet:
  assumes "interrupt t = None"
  shows "try_body env timeout start t w =
     Inr (NODE_IS_RUNNING w,
          case timeout of
            None \<Rightarrow> snd (loop_sample w)
          | Some limit \<Rightarrow>
              if now t - start > limit then on_timeout env limit (snd (loop_sample w))
              else snd (loop_sample w))"
  using assms by (simp add: try_body_cases timeout_branch_cases split: option.split)

lemma try_body_flag:
  "try_body env timeout start t w = Inr (flag, w') \<Longrightarrow> flag = NODE_IS_RUNNING w"
  by (auto simp: try_body_cases split: if_splits option.splits sum.splits)

lemma advances_sample_parts:
  "advances w (acquire_read Coordinator w)"
  "advances w (snd (get_flag Coordinator (acquire_read Coordinator w)))"
  by (simp_all add: advances_def acquire_read_def get_flag_def emit_def guarded_event_def)

lemma advances_try_body:
  "try_body env timeout start t w = Inl w' \<Longrightarrow> advances w w'"
  "try_body env timeout start t w = Inr (flag, w') \<Longrightarrow> advances w w'"
proof -
  let ?s = "snd (loop_sample w)"
  have s: "advances w ?s" by (rule advances_loop_sample)
  have b: "\<And>limit v. timeout_branch env limit (interrupt t) ?s = Inl v \<Longrightarrow> advances w v"
    "\<And>limit v. timeout_branch env limit (interrupt t) ?s = Inr v \<Longrightarrow> advances w v"
    using advances_trans[OF s advances_timeout_branch(1)]
      advances_trans[OF s advances_timeout_branch(2)] by blast+
  show "try_body env timeout start t w = Inl w' \<Longrightarrow> advances w w'"
    using advances_sample_parts[of w] s b(1)
    by (auto simp: try_body_cases advances_refl split: if_splits option.splits sum.splits)
  show "try_body env timeout start t w = Inr (flag, w') \<Longrightarrow> advances w w'"
    using s b(2)
    by (auto simp: try_body_cases split: if_splits option.splits sum.splits)
qed

section \<open>The wait loop\<close>

lemma wait_loop_step:
  assumes "interrupt t = None"
  shows "wait_loop env timeout start True (t # ts) w =
     wait_loop env timeout start (NODE_IS_RUNNING (monitor_run (lines t) w)) ts
       (case timeout of
          None \<Rightarrow> snd (loop_sample (monitor_run (lines t) w))
        | Some limit \<Rightarrow>
            if now t - start > limit
            then on_timeout env limit (snd (loop_sample (monitor_run (lines t) w)))
            else snd (loop_sample (monitor_run (lines t) w)))"
  using assms by (simp add: Let_def try_body_quiet)

lemma wait_loop_at_test:
  assumes "interrupt t = Some At_while_test"
  shows "wait_loop env timeout start True (t # ts) w = Interrupted (monitor_run (lines t) w)"
  using assms by (simp add: Let_def)

lemma wait_loop_raised:
  assumes "interrupt t \<noteq> Some At_while_test"
    and "try_body env timeout start t (monitor_run (lines t) w) = Inl w'"
  shows "wait_loop env timeout start True (t # ts) w = Interrupted (on_interrupt env w')"
  using assms by (simp add: Let_def)

lemma wait_loop_passed:
  assumes "interrupt t \<noteq> Some At_while_test"
    and "try_body env timeout start t (monitor_run (lines t) w) = Inr (flag, w')"
  shows "wait_loop env timeout start True (t # ts) w = wait_loop env timeout start flag ts w'"
  using assms by (simp add: Let_def)

lemma advances_wait_loop: "advances w (world_of (wait_loop env timeout start flag ts w))"
proof (induction ts arbitrary: w flag)
  case Nil
  show ?case by (cases flag) (simp_all add: advances_refl)
next
  case (Cons t ts)
  show ?case
  proof (cases flag)
    case False
    then show ?thesis by (simp add: advances_refl)
  next
    case True
    let ?w1 = "monitor_run (lines t) w"
    have a1: "advances w ?w1" by (rule advances_monitor_run)
    show ?thesis
    proof (cases "interrupt t = Some At_while_test")
      case at_test: True
      show ?thesis
        using a1 by (simp only: True wait_loop_at_test[OF at_test] world_of.simps)
    next
      case inside: False
      show ?thesis
      proof (cases "try_body env timeout start t ?w1")
        case (Inl w2)
        have "advances w (on_interrupt env w2)"
          by (rule advances_trans[OF advances_trans[OF a1 advances_try_body(1)[OF Inl]]
                advances_on_interrupt])
        then show ?thesis
          by (simp only: True wait_loop_raised[OF inside Inl] world_of.simps)
      next
        case (Inr fw)
        obtain f w2 where fw: "fw = (f, w2)" by (cases fw)
        have b: "try_body env timeout start t ?w1 = Inr (f, w2)" using Inr fw by simp
        have a2: "advances w w2" by (rule advances_trans[OF a1 advances_try_body(2)[OF b]])
        have step: "wait_loop env timeout start flag (t # ts) w =
            wait_loop env timeout start f ts w2"
          by (simp only: True wait_loop_passed[OF inside b])
        show ?thesis
          unfolding step by (rule advances_trans[OF a2 Cons])
      qed
    qed
  qed
qed

lemma wait_loop_append:
  "wait_loop env timeout start flag (pre @ rest) w =
     (case wait_loop env timeout start flag pre w of
        Waiting w' \<Rightarrow> wait_loop env timeout start True rest w'
      | Exited w' \<Rightarrow> Exited w'
      | Interrupted w' \<Rightarrow> Interrupted w')"
proof (induction pre arbitrary: w flag)
  case Nil
  show ?case by (cases flag) simp_all
next
  case (Cons t pre)
  show ?case
  proof (cases flag)
    case False
    then show ?thesis by simp
  next
    case True
    then show ?thesis
      using Cons by (simp add: Let_def split: sum.split prod.split)
  qed
qed

section \<open>The stages of \<open>run\<close>\<close>

lemma run_stages:
  "run env script vars_arg timeout w =
     (case write_try env script (before_write vars_arg w) of
        Inl (e, w') \<Rightarrow>
          Some (Returned None, py_print (py ''Could not run script'') (write_except env e w'))
      | Inr w3 \<Rightarrow>
          after_loop env vars_arg (vars_of vars_arg w)
            (wait_loop env timeout (start_time env)
               (NODE_IS_RUNNING (monitor_run (early_lines env) w3)) (ticks env)
               (before_loop env w3)))"
  by (simp add: run_def node_write_def before_write_def vars_of_def before_loop_def
      after_loop_def pulled_def get_flag_def Let_def
      split: sum.split loop_result.split prod.split option.split)

text \<open>The entries of \<open>ticks\<close> matter to the loop only.\<close>

lemma cancel_ticks: "cancel (env\<lparr>ticks := ts\<rparr>) restart w = cancel env restart w"
  by (simp add: cancel_def os_kill_def Let_def split: option.split)

lemma write_try_ticks: "write_try (env\<lparr>ticks := ts\<rparr>) s w = write_try env s w"
  by (simp add: write_try_def Let_def split: sum.split option.split)

lemma write_except_ticks: "write_except (env\<lparr>ticks := ts\<rparr>) e w = write_except env e w"
  by (simp add: write_except_def cancel_ticks)

lemma on_interrupt_ticks: "on_interrupt (env\<lparr>ticks := ts\<rparr>) w = on_interrupt env w"
  by (simp add: on_interrupt_def cancel_ticks)

lemma try_body_ticks:
  "try_body (env\<lparr>ticks := ts\<rparr>) timeout start t w = try_body env timeout start t w"
  by (simp add: try_body_cases timeout_branch_cases cancel_ticks on_timeout_def
      split: option.split)

lemma wait_loop_ticks:
  "wait_loop (env\<lparr>ticks := ts'\<rparr>) timeout start flag ts w = wait_loop env timeout start flag ts w"
proof (induction ts arbitrary: w flag)
  case Nil
  show ?case by (cases flag) simp_all
next
  case (Cons t ts)
  show ?case
  proof (cases flag)
    case False
    then show ?thesis by simp
  next
    case True
    then show ?thesis
      using Cons
      by (simp add: Let_def try_body_ticks on_interrupt_ticks split: sum.split prod.split)
  qed
qed

lemma run_with_ticks:
  "run (env\<lparr>ticks := ts\<rparr>) script vars_arg timeout w =
     (case write_try env script (before_write vars_arg w) of
        Inl (e, w') \<Rightarrow>
          Some (Returned None, py_print (py ''Could not run script'') (write_except env e w'))
      | Inr w3 \<Rightarrow>
          after_loop env vars_arg (vars_of vars_arg w)
            (wait_loop env timeout (start_time env)
               (NODE_IS_RUNNING (monitor_run (early_lines env) w3)) ts
               (before_loop env w3)))"
  by (simp add: run_stages write_try_ticks write_except_ticks wait_loop_ticks
      before_loop_def after_loop_def pulled_def
      split: sum.split loop_result.split option.split)


text \<open>A call that has come to its loop gives its caller what the loop leads to.\<close>

lemma run_after_loop:
  assumes "run_loop env script vars_arg timeout w = Some r"
  shows "run env script vars_arg timeout w = after_loop env vars_arg (vars_of vars_arg w) r"
  using assms by (auto simp: run_loop_def run_stages split: sum.splits)

text \<open>A run that has not returned is waiting in its loop.\<close>

lemma run_waiting:
  assumes "run (env\<lparr>ticks := pre\<rparr>) script vars_arg timeout w = None"
  shows "\<exists>w3 w6. write_try env script (before_write vars_arg w) = Inr w3
     \<and> wait_loop env timeout (start_time env)
          (NODE_IS_RUNNING (monitor_run (early_lines env) w3)) pre (before_loop env w3)
        = Waiting w6"
  using assms
  by (auto simp: run_with_ticks after_loop_def split: sum.splits loop_result.splits)


lemma advances_write_try:
  "write_try env s w = Inr w' \<Longrightarrow> advances w w'"
  "write_try env s w = Inl (e, w') \<Longrightarrow> advances w w'"
  by (auto simp: write_try_def advances_def emit_def guarded_event_def Let_def
      split: sum.splits option.splits)

lemma advances_before_write: "advances w (before_write vars_arg w)"
  by (simp add: advances_def before_write_def locked_set_flag_fields emit_fields
      guarded_event_def)

lemma advances_before_loop: "advances w3 (before_loop env w3)"
proof -
  have "advances (monitor_run (early_lines env) w3) (before_loop env w3)"
    by (simp add: advances_def before_loop_def get_flag_def emit_fields guarded_event_def)
  with advances_monitor_run[of w3 "early_lines env"] show ?thesis
    by (rule advances_trans)
qed

text \<open>From the call of \<open>run\<close> to any point of its wait loop.\<close>

lemma advances_to_loop:
  assumes "write_try env script (before_write vars_arg w) = Inr w3"
  shows "advances w (world_of (wait_loop env timeout start flag ts (before_loop env w3)))"
  using advances_trans[OF advances_trans[OF advances_trans[OF advances_before_write
          advances_write_try(1)[OF assms]] advances_before_loop] advances_wait_loop]
  by simp

section \<open>The monitor only clears the flag\<close>

lemma monitor_iter_flag:
  "NODE_IS_RUNNING (snd (monitor_iter ev w)) \<Longrightarrow> NODE_IS_RUNNING w"
  by (auto simp: monitor_iter_def locked_set_flag_fields print_stripped_fields
      split: if_splits option.splits bool.splits)

lemma monitor_line_flag:
  "NODE_IS_RUNNING (monitor_line r ev w) \<Longrightarrow> NODE_IS_RUNNING w"
  using monitor_line_shape[of r ev w] monitor_iter_flag[of ev w] by auto

lemma monitor_run_flag:
  "NODE_IS_RUNNING (monitor_run evs w) \<Longrightarrow> NODE_IS_RUNNING w"
proof (induction evs arbitrary: w)
  case Nil
  then show ?case by simp
next
  case (Cons rev evs)
  obtain r ev where rev: "rev = (r, ev)" by (cases rev)
  from Cons.prems have "NODE_IS_RUNNING (monitor_run evs (monitor_line r ev w))"
    by (simp add: rev)
  from monitor_line_flag[OF Cons.IH[OF this]] show ?case .
qed

lemma guarded_no_pull: "list_all guarded_event evs \<Longrightarrow> Sync_from \<notin> set evs"
  by (induction evs) (auto simp: guarded_event_def)

lemma guarded_writes_locked:
  "list_all guarded_event evs \<Longrightarrow> Flag_write t h v \<in> set evs \<Longrightarrow> h = Write_locked"
  by (induction evs) (auto simp: guarded_event_def)

section \<open>The time is up\<close>

lemma timeout_two_ticks:
  assumes "interrupt t = None" and "now t - start > limit" and "interrupt t' = None"
  shows "\<exists>wf. (\<forall>post. wait_loop env (Some limit) start True (t # t' # post) w = Exited wf)
     \<and> advances (on_timeout env limit (snd (loop_sample (monitor_run (lines t) w)))) wf
     \<and> \<not> NODE_IS_RUNNING wf"
proof -
  let ?w1 = "monitor_run (lines t) w"
  let ?w3 = "on_timeout env limit (snd (loop_sample ?w1))"
  have step1: "\<And>post. wait_loop env (Some limit) start True (t # t' # post) w =
      wait_loop env (Some limit) start (NODE_IS_RUNNING ?w1) (t' # post) ?w3"
    using assms(2) by (simp add: wait_loop_step[OF assms(1)] del: wait_loop.simps(3))
  show ?thesis
  proof (cases "NODE_IS_RUNNING ?w1")
    case False
    then have "\<forall>post. wait_loop env (Some limit) start True (t # t' # post) w = Exited ?w3"
      by (simp add: step1 del: wait_loop.simps(3))
    then show ?thesis
      using advances_refl[of ?w3] by (auto simp: on_timeout_fields)
  next
    case True
    let ?v1 = "monitor_run (lines t') ?w3"
    let ?v3 = "if now t' - start > limit then on_timeout env limit (snd (loop_sample ?v1))
               else snd (loop_sample ?v1)"
    have nf: "\<not> NODE_IS_RUNNING ?v1"
      using monitor_run_flag[of "lines t'" ?w3] by (auto simp: on_timeout_fields)
    have step2: "\<And>post. wait_loop env (Some limit) start True (t' # post) ?w3 = Exited ?v3"
      using nf by (simp add: wait_loop_step[OF assms(3)] del: wait_loop.simps(3))
    have "\<forall>post. wait_loop env (Some limit) start True (t # t' # post) w = Exited ?v3"
      using True by (simp only: step1 step2 simp_thms)
    moreover have "advances ?w3 ?v3"
    proof -
      have a1: "advances ?w3 ?v1" by (rule advances_monitor_run)
      have a2: "advances ?v1 (snd (loop_sample ?v1))" by (rule advances_loop_sample)
      have a3: "advances (snd (loop_sample ?v1)) (on_timeout env limit (snd (loop_sample ?v1)))"
        by (rule advances_on_timeout)
      show ?thesis
        using advances_trans[OF a1 a2] advances_trans[OF advances_trans[OF a1 a2] a3] by simp
    qed
    moreover have "\<not> NODE_IS_RUNNING ?v3"
      using nf by (simp add: on_timeout_fields loop_sample_effect)
    ultimately show ?thesis by blast
  qed
qed

lemma pulled_fields:
  "NODE_IS_RUNNING (pulled env vars_arg vars w) = NODE_IS_RUNNING w"
  "NODE_LOCK (pulled env vars_arg vars w) = NODE_LOCK w"
  "process (pulled env vars_arg vars w) = process w"
  "replaced (pulled env vars_arg vars w) = replaced w"
  "next_pid (pulled env vars_arg vars w) = next_pid w"
  "trace (pulled env vars_arg vars w) = trace w @ [Sync_from]"
  by (simp_all add: pulled_def emit_def split: option.split)

lemma run_timed_out:
  assumes "run (env\<lparr>ticks := pre\<rparr>) script vars_arg (Some limit) w = None"
    and "ticks env = pre @ t # t' # post"
    and "interrupt t = None" and "now t - start_time env > limit" and "interrupt t' = None"
  shows "\<exists>w2 wf.
      run env script vars_arg (Some limit) w =
        Some (Returned (Some (assign_all (new_vars env) (vars_of vars_arg w))),
              pulled env vars_arg (vars_of vars_arg w) wf)
    \<and> run (env\<lparr>ticks := pre @ [t, t']\<rparr>) script vars_arg (Some limit) w =
        Some (Returned (Some (assign_all (new_vars env) (vars_of vars_arg w))),
              pulled env vars_arg (vars_of vars_arg w) wf)
    \<and> advances w w2
    \<and> advances (on_timeout env limit w2) wf
    \<and> \<not> NODE_IS_RUNNING wf"
proof -
  from run_waiting[OF assms(1)] obtain w3 w6 where
    wt: "write_try env script (before_write vars_arg w) = Inr w3" and
    wl: "wait_loop env (Some limit) (start_time env)
          (NODE_IS_RUNNING (monitor_run (early_lines env) w3)) pre (before_loop env w3)
        = Waiting w6"
    by blast
  let ?w2 = "snd (loop_sample (monitor_run (lines t) w6))"
  from timeout_two_ticks[OF assms(3,4,5), of env w6] obtain wf where
    ex: "\<And>post. wait_loop env (Some limit) (start_time env) True (t # t' # post) w6 = Exited wf"
    and a: "advances (on_timeout env limit ?w2) wf" and nf: "\<not> NODE_IS_RUNNING wf"
    by blast
  have env: "env = env\<lparr>ticks := pre @ t # t' # post\<rparr>" using assms(2) by simp
  have "\<And>post. run (env\<lparr>ticks := pre @ t # t' # post\<rparr>) script vars_arg (Some limit) w =
        Some (Returned (Some (assign_all (new_vars env) (vars_of vars_arg w))),
              pulled env vars_arg (vars_of vars_arg w) wf)"
    by (simp add: run_with_ticks wt wait_loop_append wl ex after_loop_def del: wait_loop.simps)
  from this[of post] this[of "[]"] env have
    "run env script vars_arg (Some limit) w =
        Some (Returned (Some (assign_all (new_vars env) (vars_of vars_arg w))),
              pulled env vars_arg (vars_of vars_arg w) wf)"
    "run (env\<lparr>ticks := pre @ [t, t']\<rparr>) script vars_arg (Some limit) w =
        Some (Returned (Some (assign_all (new_vars env) (vars_of vars_arg w))),
              pulled env vars_arg (vars_of vars_arg w) wf)"
    by simp_all
  moreover have "advances w w6"
    using advances_to_loop[OF wt, of "Some limit" "start_time env"
        "NODE_IS_RUNNING (monitor_run (early_lines env) w3)" pre] wl by simp
  then have "advances w ?w2"
    using advances_trans[OF advances_monitor_run advances_loop_sample]
    by (rule advances_trans)
  ultimately show ?thesis using a nf by blast
qed

section \<open>Sample runs\<close>

lemmas run_steps =
  run_def node_write_def write_try_def write_except_def Let_def get_flag_def
  try_body_cases timeout_branch_cases acquire_read_def
  loop_sample_effect on_timeout_fields on_interrupt_def locked_set_flag_effect
  cancel_restart_effect os_kill_def emit_def py_print_def held_mode_def assign_all_def
  monitor_line_def monitor_thread_def monitor_iter_def is_done_message_def type_is_done_def
  print_stripped_def

lemmas samples =
  env0_def world0_def ReadWriteLock_def quiet_tick_def interrupt_tick_def late_tick_def
  interrupt_locked_tick_def interrupt_test_tick_def
  done_tick_def exit_tick_def done_line_def exit_line_def log_line_def blank_line_def
  env_interrupted_def env_interrupted_locked_def env_interrupted_at_test_def
  env_late_def env_done_def env_exit_def env_done_again_def

lemma run_x_waiting:
  "run (env0\<lparr>ticks := [quiet_tick]\<rparr>) (py ''x'') None None world0 = None"
  by (simp add: run_steps frame_x samples)

lemma run_x_interrupted:
  "run (env0\<lparr>ticks := [quiet_tick, interrupt_tick]\<rparr>) (py ''x'') None None world0 =
     Some (Raised_KeyboardInterrupt,
       \<lparr>NODE_IS_RUNNING = False, NODE_LOCK = ReadWriteLock,
        process = \<lparr>pid = 2, returncode = None, stop_event = False, monitor_live = True\<rparr>,
        replaced = [\<lparr>pid = 1, returncode = None, stop_event = True, monitor_live = True\<rparr>],
        next_pid = 3, run_default_vars = [],
        trace = [Sync_to [], Acquire_write Coordinator,
          Flag_write Coordinator Write_locked True, Release_write Coordinator,
          Stdin_write 1 ([69, 48, 48, 48, 48, 48, 48, 48, 102, 67]
            @ [123, 34, 115, 99, 114, 105, 112, 116, 34, 58, 32, 34, 120, 34, 125]),
          Stdin_flush 1, Flag_read Coordinator Unlocked,
          Acquire_read Coordinator, Flag_read Coordinator Read_locked, Release_read Coordinator,
          Kill 1, Stop_monitor 1, Stop_monitor 1, Spawn 2,
          Acquire_write Coordinator, Flag_write Coordinator Write_locked False,
          Release_write Coordinator, Print (py ''Process was interrupted.'')]\<rparr>)"
  by (simp add: run_steps frame_x samples)

lemma run_x_late_waiting:
  "run (env0\<lparr>ticks := [quiet_tick]\<rparr>) (py ''x'') None (Some 5) world0 = None"
  by (simp add: run_steps frame_x samples)

lemma run_x_late:
  "run (env0\<lparr>ticks := [quiet_tick, late_tick, late_tick]\<rparr>) (py ''x'') None (Some 5) world0 =
     Some (Returned (Some []),
       \<lparr>NODE_IS_RUNNING = False, NODE_LOCK = ReadWriteLock,
        process = \<lparr>pid = 3, returncode = None, stop_event = False, monitor_live = True\<rparr>,
        replaced = [\<lparr>pid = 1, returncode = None, stop_event = True, monitor_live = True\<rparr>,
                    \<lparr>pid = 2, returncode = None, stop_event = True, monitor_live = True\<rparr>],
        next_pid = 4, run_default_vars = [],
        trace = [Sync_to [], Acquire_write Coordinator,
          Flag_write Coordinator Write_locked True, Release_write Coordinator,
          Stdin_write 1 ([69, 48, 48, 48, 48, 48, 48, 48, 102, 67]
            @ [123, 34, 115, 99, 114, 105, 112, 116, 34, 58, 32, 34, 120, 34, 125]),
          Stdin_flush 1, Flag_read Coordinator Unlocked,
          Acquire_read Coordinator, Flag_read Coordinator Read_locked, Release_read Coordinator,
          Acquire_read Coordinator, Flag_read Coordinator Read_locked, Release_read Coordinator,
          Kill 1, Stop_monitor 1, Stop_monitor 1, Spawn 2,
          Acquire_write Coordinator, Flag_write Coordinator Write_locked False,
          Release_write Coordinator, Print_took_longer 5,
          Acquire_read Coordinator, Flag_read Coordinator Read_locked, Release_read Coordinator,
          Kill 2, Stop_monitor 2, Stop_monitor 2, Spawn 3,
          Acquire_write Coordinator, Flag_write Coordinator Write_locked False,
          Release_write Coordinator, Print_took_longer 5,
          Sync_from]\<rparr>)"
  by (simp add: run_steps frame_x samples)

lemma py_eq_iff: "py a = py b \<longleftrightarrow> a = b"
  by (simp add: py_def inj_map_eq_map inj_def)

lemma run_x_done:
  "run env_done (py ''x'') (Some [(py ''x'', 5), (py ''y'', 1)]) None world0 =
     Some (Returned (Some [(py ''x'', 5), (py ''y'', 7), (py ''z'', 9)]),
       \<lparr>NODE_IS_RUNNING = False, NODE_LOCK = ReadWriteLock,
        process = \<lparr>pid = 1, returncode = None, stop_event = False, monitor_live = True\<rparr>,
        replaced = [],
        next_pid = 2, run_default_vars = [],
        trace = [Sync_to [(py ''x'', 5), (py ''y'', 1)], Acquire_write Coordinator,
          Flag_write Coordinator Write_locked True, Release_write Coordinator,
          Stdin_write 1 ([69, 48, 48, 48, 48, 48, 48, 48, 102, 67]
            @ [123, 34, 115, 99, 114, 105, 112, 116, 34, 58, 32, 34, 120, 34, 125]),
          Stdin_flush 1, Flag_read Coordinator Unlocked,
          Acquire_read Coordinator, Flag_read Coordinator Read_locked, Release_read Coordinator,
          Acquire_write Monitor, Flag_write Monitor Write_locked False, Release_write Monitor,
          Acquire_read Coordinator, Flag_read Coordinator Read_locked, Release_read Coordinator,
          Sync_from]\<rparr>)"
  by (simp add: run_steps frame_x samples py_eq_iff)

section \<open>The variables pulled after a run\<close>

lemma map_of_assign_all:
  "distinct (map fst new) \<Longrightarrow> map_of (assign_all new vars) = map_of vars ++ map_of new"
proof (induction new arbitrary: vars)
  case Nil
  show ?case by (simp add: assign_all_def)
next
  case (Cons kv new)
  obtain key v where kv: "kv = (key, v)" by (cases kv)
  from Cons.prems kv have d: "distinct (map fst new)" and k: "key \<notin> fst ` set new" by auto
  from k have n: "map_of new key = None" by (simp add: map_of_eq_None_iff)
  have "map_of (assign_all (kv # new) vars) = map_of (assign_all new (AList.update key v vars))"
    by (simp add: assign_all_def kv)
  also have "\<dots> = map_of (AList.update key v vars) ++ map_of new"
    by (rule Cons.IH[OF d])
  also have "\<dots> = (map_of vars)(key \<mapsto> v) ++ map_of new"
    by (simp add: update_conv')
  also have "\<dots> = map_of vars ++ map_of (kv # new)"
    using n by (auto simp: kv map_add_def fun_eq_iff split: option.split)
  finally show ?case .
qed

lemma run_returns_dictionary:
  assumes "run env script vars_arg timeout w = Some (Returned (Some r), w')"
  shows "\<exists>w6. r = assign_all (new_vars env) (vars_of vars_arg w)
     \<and> w' = pulled env vars_arg (vars_of vars_arg w) w6
     \<and> advances w w6"
proof (cases "write_try env script (before_write vars_arg w)")
  case (Inl a)
  with assms show ?thesis by (cases a) (simp add: run_stages)
next
  case (Inr w3)
  let ?res = "wait_loop env timeout (start_time env)
               (NODE_IS_RUNNING (monitor_run (early_lines env) w3)) (ticks env)
               (before_loop env w3)"
  from assms Inr have "after_loop env vars_arg (vars_of vars_arg w) ?res
      = Some (Returned (Some r), w')"
    by (simp add: run_stages)
  then obtain w6 where e: "?res = Exited w6"
    and r: "r = assign_all (new_vars env) (vars_of vars_arg w)"
    and w': "w' = pulled env vars_arg (vars_of vars_arg w) w6"
    by (auto simp: after_loop_def split: loop_result.splits)
  from advances_to_loop[OF Inr, of timeout "start_time env"
      "NODE_IS_RUNNING (monitor_run (early_lines env) w3)" "ticks env"] e
  have "advances w w6" by simp
  with r w' show ?thesis by blast
qed

section \<open>Two runs on the default dictionary\<close>

lemma run_pushes_first:
  assumes "run env script vars_arg timeout w = Some (Returned (Some r), w')"
  shows "\<exists>evs. trace w' = trace w @ Sync_to (vars_of vars_arg w) # evs"
proof (cases "write_try env script (before_write vars_arg w)")
  case (Inl a)
  with assms show ?thesis by (cases a) (simp add: run_stages)
next
  case (Inr w3)
  let ?res = "wait_loop env timeout (start_time env)
               (NODE_IS_RUNNING (monitor_run (early_lines env) w3)) (ticks env)
               (before_loop env w3)"
  let ?w0 = "emit (Sync_to (vars_of vars_arg w)) w"
  from assms Inr have "after_loop env vars_arg (vars_of vars_arg w) ?res
      = Some (Returned (Some r), w')"
    by (simp add: run_stages)
  then obtain w6 where e: "?res = Exited w6"
    and w': "w' = pulled env vars_arg (vars_of vars_arg w) w6"
    by (auto simp: after_loop_def split: loop_result.splits)
  have a0: "advances ?w0 (before_write vars_arg w)"
    unfolding before_write_def by (rule advances_locked_set_flag)
  have a1: "advances (before_write vars_arg w) w3"
    by (rule advances_write_try(1)[OF Inr])
  have a2: "advances w3 (before_loop env w3)" by (rule advances_before_loop)
  have a3: "advances (before_loop env w3) (world_of ?res)" by (rule advances_wait_loop)
  have "advances ?w0 w6"
    using advances_trans[OF advances_trans[OF advances_trans[OF a0 a1] a2] a3] e by simp
  then obtain evs where "trace w6 = trace ?w0 @ evs"
    unfolding advances_def by blast
  then have "trace w' = trace w @ Sync_to (vars_of vars_arg w) # (evs @ [Sync_from])"
    by (simp add: w' pulled_fields emit_fields)
  then show ?thesis by blast
qed

lemma pulled_default_vars:
  "run_default_vars (pulled env None vars w) = assign_all (new_vars env) vars"
  by (simp add: pulled_def)

lemma run_x_default_first:
  "run env_done (py ''x'') None None world0 =
     Some (Returned (Some [(py ''y'', 7), (py ''z'', 9)]),
       \<lparr>NODE_IS_RUNNING = False, NODE_LOCK = ReadWriteLock,
        process = \<lparr>pid = 1, returncode = None, stop_event = False, monitor_live = True\<rparr>,
        replaced = [],
        next_pid = 2, run_default_vars = [(py ''y'', 7), (py ''z'', 9)],
        trace = [Sync_to [], Acquire_write Coordinator,
          Flag_write Coordinator Write_locked True, Release_write Coordinator,
          Stdin_write 1 ([69, 48, 48, 48, 48, 48, 48, 48, 102, 67]
            @ [123, 34, 115, 99, 114, 105, 112, 116, 34, 58, 32, 34, 120, 34, 125]),
          Stdin_flush 1, Flag_read Coordinator Unlocked,
          Acquire_read Coordinator, Flag_read Coordinator Read_locked, Release_read Coordinator,
          Acquire_write Monitor, Flag_write Monitor Write_locked False, Release_write Monitor,
          Acquire_read Coordinator, Flag_read Coordinator Read_locked, Release_read Coordinator,
          Sync_from]\<rparr>)"
  by (simp add: run_steps frame_x samples py_eq_iff)

lemma run_x_default_second:
  "run env_done_again (py ''x'') None None
       \<lparr>NODE_IS_RUNNING = False, NODE_LOCK = ReadWriteLock,
        process = \<lparr>pid = 1, returncode = None, stop_event = False, monitor_live = True\<rparr>,
        replaced = [],
        next_pid = 2, run_default_vars = [(py ''y'', 7), (py ''z'', 9)],
        trace = tr\<rparr> =
     Some (Returned (Some [(py ''y'', 7), (py ''z'', 9)]),
       \<lparr>NODE_IS_RUNNING = False, NODE_LOCK = ReadWriteLock,
        process = \<lparr>pid = 1, returncode = None, stop_event = False, monitor_live = True\<rparr>,
        replaced = [],
        next_pid = 2, run_default_vars = [(py ''y'', 7), (py ''z'', 9)],
        trace = tr @ [Sync_to [(py ''y'', 7), (py ''z'', 9 :: int)], Acquire_write Coordinator,
          Flag_write Coordinator Write_locked True, Release_write Coordinator,
          Stdin_write 1 ([69, 48, 48, 48, 48, 48, 48, 48, 102, 67]
            @ [123, 34, 115, 99, 114, 105, 112, 116, 34, 58, 32, 34, 120, 34, 125]),
          Stdin_flush 1, Flag_read Coordinator Unlocked,
          Acquire_write Monitor, Flag_write Monitor Write_locked False, Release_write Monitor,
          Acquire_read Coordinator, Flag_read Coordinator Read_locked, Release_read Coordinator,
          Sync_from]\<rparr>)"
  by (simp add: run_steps frame_x samples py_eq_iff)

lemma wait_loop_sample_quiet:
  "wait_loop env_done None 0 True [quiet_tick] world0 =
     Exited (world0\<lparr>trace := [Acquire_read Coordinator, Flag_read Coordinator Read_locked,
                                Release_read Coordinator]\<rparr>)"
  by (simp add: run_steps samples)

lemma monitor_run_done_line:
  "monitor_run [(Current, done_line)] world0 =
     world0\<lparr>trace := [Acquire_write Monitor, Flag_write Monitor Write_locked False,
                       Release_write Monitor]\<rparr>"
  by (simp add: run_steps samples)

text \<open>
  The monitor of a process that \<open>cancel\<close> has replaced: when the stream of the killed
  process ends, that thread still clears the flag, and then it ends.
\<close>

lemma replaced_monitor_sample:
  "monitor_run [(Replaced 0, killed_line)] (cancel env0 True world_running) =
     \<lparr>NODE_IS_RUNNING = False, NODE_LOCK = ReadWriteLock,
      process = \<lparr>pid = 2, returncode = None, stop_event = False, monitor_live = True\<rparr>,
      replaced = [\<lparr>pid = 1, returncode = Some (- 15), stop_event = True, monitor_live = False\<rparr>],
      next_pid = 3, run_default_vars = [],
      trace = [Kill 1, Stop_monitor 1, Stop_monitor 1, Spawn 2,
        Acquire_write Monitor, Flag_write Monitor Write_locked False, Release_write Monitor]\<rparr>"
  by (simp add: run_steps samples world_running_def killed_line_def)

section \<open>The lock at every access to the flag\<close>

lemma advances_write_except: "advances w (write_except env e w)"
  unfolding write_except_def Let_def
  by (auto intro: advances_trans[OF advances_cancel advances_py_print]
      advances_trans[OF advances_trans[OF advances_cancel advances_py_print] advances_py_print]
      advances_trans[OF _ advances_locked_set_flag])

lemma advances_node_write: "advances w (snd (node_write env s w))"
proof (cases "write_try env s w")
  case (Inl a)
  obtain e w' where a: "a = (e, w')" by (cases a)
  with Inl advances_trans[OF advances_write_try(2) advances_write_except, of env s w e w' env e]
  show ?thesis by (simp add: node_write_def)
next
  case (Inr w')
  with advances_write_try(1)[of env s w w'] show ?thesis by (simp add: node_write_def)
qed

lemma advances_writes:
  assumes "advances w w'"
  shows "\<exists>evs. trace w' = trace w @ evs
     \<and> (\<forall>t h v. Flag_write t h v \<in> set evs \<longrightarrow> h = Write_locked)"
proof -
  from assms obtain evs where "trace w' = trace w @ evs" "list_all guarded_event evs"
    unfolding advances_def by blast
  then show ?thesis using guarded_writes_locked by blast
qed

lemma run_advances:
  assumes "run env script vars_arg timeout w = Some (out, w')"
  shows "advances w w' \<or> (\<exists>w6. advances w w6 \<and> trace w' = trace w6 @ [Sync_from])"
proof (cases "write_try env script (before_write vars_arg w)")
  case (Inl a)
  obtain e w3 where a: "a = (e, w3)" by (cases a)
  from assms Inl a have w': "w' = py_print (py ''Could not run script'') (write_except env e w3)"
    by (simp add: run_stages)
  have "advances w w3"
    using advances_trans[OF advances_before_write advances_write_try(2)] Inl a by blast
  then have "advances w w'"
    unfolding w'
    using advances_trans[OF advances_write_except advances_py_print] advances_trans by blast
  then show ?thesis ..
next
  case (Inr w3)
  let ?res = "wait_loop env timeout (start_time env)
               (NODE_IS_RUNNING (monitor_run (early_lines env) w3)) (ticks env)
               (before_loop env w3)"
  have a: "advances w (world_of ?res)" by (rule advances_to_loop[OF Inr])
  from assms Inr have r: "after_loop env vars_arg (vars_of vars_arg w) ?res = Some (out, w')"
    by (simp add: run_stages)
  show ?thesis
  proof (cases ?res)
    case (Exited w6)
    with r have "trace w' = trace w6 @ [Sync_from]"
      by (auto simp: after_loop_def pulled_fields)
    with a Exited show ?thesis by auto
  next
    case (Interrupted w6)
    with r a show ?thesis by (auto simp: after_loop_def)
  next
    case (Waiting w6)
    with r show ?thesis by (simp add: after_loop_def)
  qed
qed

lemma run_writes_locked:
  assumes "run env script vars_arg timeout w = Some (out, w')"
  shows "\<exists>evs. trace w' = trace w @ evs
     \<and> (\<forall>t h v. Flag_write t h v \<in> set evs \<longrightarrow> h = Write_locked)"
proof -
  from run_advances[OF assms] show ?thesis
  proof
    assume "advances w w'"
    then show ?thesis by (rule advances_writes)
  next
    assume "\<exists>w6. advances w w6 \<and> trace w' = trace w6 @ [Sync_from]"
    then obtain w6 where a: "advances w w6" and t: "trace w' = trace w6 @ [Sync_from]"
      by blast
    from advances_writes[OF a] obtain evs where
      "trace w6 = trace w @ evs" "\<forall>t h v. Flag_write t h v \<in> set evs \<longrightarrow> h = Write_locked"
      by blast
    with t have "trace w' = trace w @ (evs @ [Sync_from])"
      "\<forall>t h v. Flag_write t h v \<in> set (evs @ [Sync_from]) \<longrightarrow> h = Write_locked"
      by auto
    then show ?thesis by blast
  qed
qed

lemma reads_guarded_refl: "\<not> writer (NODE_LOCK w) \<Longrightarrow> reads_guarded w w"
  by (simp add: reads_guarded_def)

lemma reads_guarded_trans:
  assumes "reads_guarded w w'" and "reads_guarded w' w''"
  shows "reads_guarded w w''"
proof -
  from assms(1) obtain evs where
    1: "trace w' = trace w @ evs" "\<forall>t h. Flag_read t h \<in> set evs \<longrightarrow> h = Read_locked"
    unfolding reads_guarded_def by blast
  from assms(2) obtain evs' where
    2: "trace w'' = trace w' @ evs'" "\<forall>t h. Flag_read t h \<in> set evs' \<longrightarrow> h = Read_locked"
    unfolding reads_guarded_def by blast
  have "trace w'' = trace w @ (evs @ evs')"
    "\<forall>t h. Flag_read t h \<in> set (evs @ evs') \<longrightarrow> h = Read_locked"
    using 1 2 by auto
  then have "\<exists>evs. trace w'' = trace w @ evs \<and> (\<forall>t h. Flag_read t h \<in> set evs \<longrightarrow> h = Read_locked)"
    by blast
  with assms(2) show ?thesis unfolding reads_guarded_def by blast
qed

lemma reads_guarded_locked_set_flag: "reads_guarded w (locked_set_flag t v w)"
  by (simp add: reads_guarded_def locked_set_flag_fields)

lemma reads_guarded_print_stripped:
  "\<not> writer (NODE_LOCK w) \<Longrightarrow> reads_guarded w (print_stripped out w)"
  by (simp add: reads_guarded_def print_stripped_fields)

lemma reads_guarded_monitor_iter:
  "\<not> writer (NODE_LOCK w) \<Longrightarrow> reads_guarded w (snd (monitor_iter ev w))"
  by (simp add: monitor_iter_def reads_guarded_locked_set_flag reads_guarded_print_stripped
      reads_guarded_refl split: option.split bool.split)

lemma reads_guarded_thread_update:
  "reads_guarded w w' \<Longrightarrow> reads_guarded w (w'\<lparr>process := p\<rparr>)"
  "reads_guarded w w' \<Longrightarrow> reads_guarded w (w'\<lparr>replaced := ps\<rparr>)"
  by (simp_all add: reads_guarded_def)

lemma reads_guarded_monitor_line:
  "\<not> writer (NODE_LOCK w) \<Longrightarrow> reads_guarded w (monitor_line r ev w)"
  using monitor_line_shape[of r ev w] reads_guarded_monitor_iter[of w ev]
  by (auto simp: reads_guarded_refl intro!: reads_guarded_thread_update)

lemma reads_guarded_monitor_run:
  "\<not> writer (NODE_LOCK w) \<Longrightarrow> reads_guarded w (monitor_run evs w)"
proof (induction evs arbitrary: w)
  case Nil
  then show ?case by (simp add: reads_guarded_refl)
next
  case (Cons rev evs)
  obtain r ev where rev: "rev = (r, ev)" by (cases rev)
  have a: "reads_guarded w (monitor_line r ev w)"
    by (rule reads_guarded_monitor_line[OF Cons.prems])
  then have "\<not> writer (NODE_LOCK (monitor_line r ev w))" by (simp add: reads_guarded_def)
  from reads_guarded_trans[OF a Cons.IH[OF this]] show ?case by (simp add: rev)
qed

lemma reads_guarded_loop_sample:
  "\<not> writer (NODE_LOCK w) \<Longrightarrow> reads_guarded w (snd (loop_sample w))"
  by (simp add: reads_guarded_def loop_sample_effect)

lemma reads_guarded_on_timeout: "reads_guarded w (on_timeout env limit w)"
  by (cases "os_kill env (process w)")
    (simp_all add: reads_guarded_def on_timeout_fields)

text \<open>
  Where \<open>KeyboardInterrupt\<close> leaves the branch of the timeout, the flag has not been
  read since the branch began; the handler reads nothing and gives the write lock back.
\<close>

lemma timeout_branch_raised_trace:
  assumes "timeout_branch env limit raised w = Inl w'"
  shows "\<exists>evs. trace w' = trace w @ evs \<and> (\<forall>t h. Flag_read t h \<notin> set evs)"
proof (cases "os_kill env (process w)")
  case None
  with assms show ?thesis
    by (auto simp: timeout_branch_cases cancel_restart_effect locked_set_flag_effect
        acquire_write_def set_flag_def emit_def split: if_splits)
next
  case (Some e)
  with assms show ?thesis
    by (auto simp: timeout_branch_cases cancel_restart_effect locked_set_flag_effect
        acquire_write_def set_flag_def emit_def split: if_splits)
qed

lemma on_interrupt_after:
  assumes "trace w' = trace w @ evs" and "\<forall>t h. Flag_read t h \<in> set evs \<longrightarrow> h = Read_locked"
  shows "reads_guarded w (on_interrupt env w')"
proof -
  obtain evs' where "trace (on_interrupt env w') = trace w' @ evs'"
    "\<forall>t h. Flag_read t h \<notin> set evs'"
    by (cases "os_kill env (process w')") (simp_all add: on_interrupt_fields)
  with assms have "trace (on_interrupt env w') = trace w @ (evs @ evs')"
    "\<forall>t h. Flag_read t h \<in> set (evs @ evs') \<longrightarrow> h = Read_locked"
    by auto
  then have "\<exists>evs. trace (on_interrupt env w') = trace w @ evs
      \<and> (\<forall>t h. Flag_read t h \<in> set evs \<longrightarrow> h = Read_locked)"
    by blast
  moreover have "\<not> writer (NODE_LOCK (on_interrupt env w'))"
    by (simp add: on_interrupt_fields)
  ultimately show ?thesis unfolding reads_guarded_def by blast
qed

lemma try_body_raised_reads:
  assumes "\<not> writer (NODE_LOCK w)" and "try_body env timeout start t w = Inl w'"
  shows "reads_guarded w (on_interrupt env w')"
proof -
  let ?s = "snd (loop_sample w)"
  have s: "trace ?s = trace w @ [Acquire_read Coordinator, Flag_read Coordinator Read_locked,
      Release_read Coordinator]"
    using assms(1) by (simp add: loop_sample_effect)
  have "\<exists>evs. trace w' = trace w @ evs \<and> (\<forall>t h. Flag_read t h \<in> set evs \<longrightarrow> h = Read_locked)"
  proof (cases "\<exists>limit. timeout_branch env limit (interrupt t) ?s = Inl w'")
    case True
    then obtain limit where "timeout_branch env limit (interrupt t) ?s = Inl w'" by blast
    from timeout_branch_raised_trace[OF this] obtain evs where
      "trace w' = trace ?s @ evs" "\<forall>t h. Flag_read t h \<notin> set evs"
      by blast
    with s have "trace w' = trace w @ ([Acquire_read Coordinator,
        Flag_read Coordinator Read_locked, Release_read Coordinator] @ evs)"
      "\<forall>t h. Flag_read t h \<in> set ([Acquire_read Coordinator,
        Flag_read Coordinator Read_locked, Release_read Coordinator] @ evs) \<longrightarrow> h = Read_locked"
      by auto
    then show ?thesis by blast
  next
    case False
    with assms(2) have "w' = w \<or> w' = acquire_read Coordinator w
        \<or> w' = snd (get_flag Coordinator (acquire_read Coordinator w)) \<or> w' = ?s"
      by (auto simp: try_body_cases split: if_splits option.splits sum.splits)
    then show ?thesis
      using assms(1) s
      by (auto simp: acquire_read_def get_flag_def emit_def held_mode_def)
  qed
  then show ?thesis using on_interrupt_after by blast
qed

lemma try_body_passed_reads:
  assumes "\<not> writer (NODE_LOCK w)" and "try_body env timeout start t w = Inr (flag, w')"
  shows "reads_guarded w w'"
proof -
  let ?s = "snd (loop_sample w)"
  have s: "reads_guarded w ?s" by (rule reads_guarded_loop_sample[OF assms(1)])
  from assms(2) have "w' = ?s \<or> (\<exists>limit. w' = on_timeout env limit ?s)"
    by (auto simp: try_body_cases timeout_branch_cases split: if_splits option.splits sum.splits)
  then show ?thesis
    using s reads_guarded_trans[OF s reads_guarded_on_timeout] by auto
qed

lemma reads_guarded_wait_loop:
  "\<not> writer (NODE_LOCK w) \<Longrightarrow>
     reads_guarded w (world_of (wait_loop env timeout start flag ts w))"
proof (induction ts arbitrary: w flag)
  case Nil
  then show ?case by (cases flag) (simp_all add: reads_guarded_refl)
next
  case (Cons t ts)
  show ?case
  proof (cases flag)
    case False
    with Cons.prems show ?thesis by (simp add: reads_guarded_refl)
  next
    case True
    let ?w1 = "monitor_run (lines t) w"
    have a1: "reads_guarded w ?w1" by (rule reads_guarded_monitor_run[OF Cons.prems])
    then have n1: "\<not> writer (NODE_LOCK ?w1)" by (simp add: reads_guarded_def)
    show ?thesis
    proof (cases "interrupt t = Some At_while_test")
      case at_test: True
      show ?thesis
        using a1 by (simp only: True wait_loop_at_test[OF at_test] world_of.simps)
    next
      case inside: False
      show ?thesis
      proof (cases "try_body env timeout start t ?w1")
        case (Inl w2)
        have "reads_guarded w (on_interrupt env w2)"
          by (rule reads_guarded_trans[OF a1 try_body_raised_reads[OF n1 Inl]])
        then show ?thesis
          by (simp only: True wait_loop_raised[OF inside Inl] world_of.simps)
      next
        case (Inr fw)
        obtain f w2 where fw: "fw = (f, w2)" by (cases fw)
        have b: "try_body env timeout start t ?w1 = Inr (f, w2)" using Inr fw by simp
        have a2: "reads_guarded w w2"
          by (rule reads_guarded_trans[OF a1 try_body_passed_reads[OF n1 b]])
        then have n2: "\<not> writer (NODE_LOCK w2)" by (simp add: reads_guarded_def)
        have step: "wait_loop env timeout start flag (t # ts) w =
            wait_loop env timeout start f ts w2"
          by (simp only: True wait_loop_passed[OF inside b])
        show ?thesis
          unfolding step by (rule reads_guarded_trans[OF a2 Cons.IH[OF n2]])
      qed
    qed
  qed
qed

section \<open>A completion message and the exit of the process\<close>








section \<open>An interruption in the wait loop\<close>








section \<open>The claims\<close>

text \<open>
  Claim C1. For every script whose payload \<open>json.dumps({'script': s})\<close>, encoded as
  UTF-8, has a byte length \<open>L\<close> below \<open>16^8\<close>, the bytes \<open>write\<close> hands to the stdin
  of the companion process are the letter \<open>E\<close>, eight lowercase hexadecimal digits
  that denote \<open>L\<close>, the letter \<open>C\<close>, and then the payload.
\<close>

theorem write_sends_length_prefixed_frame:
  assumes "encode_utf8 (json_dumps_script script) = Some payload"
    and "length payload < 16 ^ 8"
  shows "\<exists>digits rest.
      trace (snd (node_write env script w)) =
        trace w @ Stdin_write (pid (process w)) (py ''E'' @ digits @ py ''C'' @ payload) # rest
    \<and> length digits = 8
    \<and> hex_value digits = Some (length payload)"
proof -
  from assms(1) have p: "payload = json_dumps_script script"
    by (simp add: encode_utf8_json)
  with assms(2) have "length (json_dumps_script script) < 16 ^ 8" by simp
  from node_write_trace_small[OF this, of env w] show ?thesis
    unfolding p by (auto simp: py_def)
qed

theorem write_sends_length_prefixed_frame_witness:
  "encode_utf8 (json_dumps_script (py ''x''))
     = Some [123, 34, 115, 99, 114, 105, 112, 116, 34, 58, 32, 34, 120, 34, 125]
   \<and> length [123, 34, 115, 99, 114, 105, 112, 116, 34, 58, 32, 34, 120, 34, 125 :: nat] < 16 ^ 8
   \<and> (\<exists>digits rest.
        trace (snd (node_write env0 (py ''x'') world0)) =
          trace world0 @ Stdin_write (pid (process world0))
            (py ''E'' @ digits @ py ''C'' @ [123, 34, 115, 99, 114, 105, 112, 116, 34, 58, 32, 34, 120, 34, 125]) # rest
      \<and> length digits = 8
      \<and> hex_value digits = Some (length [123, 34, 115, 99, 114, 105, 112, 116, 34, 58, 32, 34, 120, 34, 125 :: nat]))
   \<and> node_write env0 (py ''x'') world0 =
       (1, world0\<lparr>trace :=
          [Stdin_write 1 ([69, 48, 48, 48, 48, 48, 48, 48, 102, 67]
             @ [123, 34, 115, 99, 114, 105, 112, 116, 34, 58, 32, 34, 120, 34, 125]),
           Stdin_flush 1]\<rparr>)"
proof -
  have enc: "encode_utf8 (json_dumps_script (py ''x''))
     = Some [123, 34, 115, 99, 114, 105, 112, 116, 34, 58, 32, 34, 120, 34, 125]"
    by (simp add: json_dumps_script_x utf8_char_def)
  have len: "length [123, 34, 115, 99, 114, 105, 112, 116, 34, 58, 32, 34, 120, 34, 125 :: nat] < 16 ^ 8"
    by simp
  have fr: "frame (py ''x'') = Inr ([69, 48, 48, 48, 48, 48, 48, 48, 102, 67]
             @ [123, 34, 115, 99, 114, 105, 112, 116, 34, 58, 32, 34, 120, 34, 125])"
    using frame_small[of "py ''x''"]
    by (simp add: json_dumps_script_x hex_digits.simps hex_digit_def replicate_numeral_unfold)
  have run: "node_write env0 (py ''x'') world0 =
       (1, world0\<lparr>trace :=
          [Stdin_write 1 ([69, 48, 48, 48, 48, 48, 48, 48, 102, 67]
             @ [123, 34, 115, 99, 114, 105, 112, 116, 34, 58, 32, 34, 120, 34, 125]),
           Stdin_flush 1]\<rparr>)"
    by (simp add: node_write_def write_try_def fr env0_def world0_def emit_def)
  from write_sends_length_prefixed_frame[OF enc len, of env0 world0] enc len run
  show ?thesis by blast
qed

text \<open>
  Claim C2, as the code has it. For a line that decodes, is not empty and is read while
  the companion process is alive: when it parses as a message whose type is \<open>done\<close>,
  the monitor takes the write lock, sets the running flag to false, releases the lock
  and goes on; any other such line leaves the flag as it is, and its text, stripped of
  surrounding white space, is printed unless nothing is left of it. When \<open>poll()\<close>
  reports that the process has exited, the line is not looked at: the monitor clears the
  flag under the write lock and ends. An empty string read from a live process does
  nothing, and bytes that do not decode end the thread by the exception, with nothing
  printed and the flag as it was. A thread that is alive handles the line, and is alive
  afterwards when the body went on and its stop event is not set.
\<close>

theorem monitor_classifies_line:
  "(output_line ev = Some out \<and> out \<noteq> [] \<and> poll ev = None \<and> is_done_message ev \<longrightarrow>
        fst (monitor_iter ev w) = Continue
      \<and> \<not> NODE_IS_RUNNING (snd (monitor_iter ev w))
      \<and> trace (snd (monitor_iter ev w)) =
          trace w @ [Acquire_write Monitor, Flag_write Monitor Write_locked False,
                     Release_write Monitor])
   \<and> (output_line ev = Some out \<and> out \<noteq> [] \<and> poll ev = None \<and> \<not> is_done_message ev \<longrightarrow>
        fst (monitor_iter ev w) = Continue
      \<and> NODE_IS_RUNNING (snd (monitor_iter ev w)) = NODE_IS_RUNNING w
      \<and> trace (snd (monitor_iter ev w)) =
          trace w @ (if strip out = [] then [] else [Print (strip out)]))
   \<and> (output_line ev = Some out \<and> poll ev \<noteq> None \<longrightarrow>
        fst (monitor_iter ev w) = Break
      \<and> \<not> NODE_IS_RUNNING (snd (monitor_iter ev w))
      \<and> trace (snd (monitor_iter ev w)) =
          trace w @ [Acquire_write Monitor, Flag_write Monitor Write_locked False,
                     Release_write Monitor])
   \<and> (output_line ev = Some [] \<and> poll ev = None \<longrightarrow> monitor_iter ev w = (Continue, w))
   \<and> (output_line ev = None \<longrightarrow> monitor_iter ev w = (Uncaught, w))
   \<and> (monitor_live p \<longrightarrow>
        snd (monitor_thread ev p w) = snd (monitor_iter ev w)
      \<and> monitor_live (fst (monitor_thread ev p w))
          = (fst (monitor_iter ev w) = Continue \<and> \<not> stop_event p))"
proof -
  have "monitor_live p \<longrightarrow>
        snd (monitor_thread ev p w) = snd (monitor_iter ev w)
      \<and> monitor_live (fst (monitor_thread ev p w))
          = (fst (monitor_iter ev w) = Continue \<and> \<not> stop_event p)"
    by (cases "monitor_iter ev w") (simp add: monitor_thread_def split: control.split)
  then show ?thesis
    by (simp add: monitor_iter_live monitor_iter_exited monitor_iter_eof
        monitor_iter_undecodable locked_set_flag_fields print_stripped_fields)
qed

theorem monitor_classifies_line_witness:
  "output_line done_line \<noteq> None \<and> output_line done_line \<noteq> Some [] \<and> poll done_line = None
   \<and> is_done_message done_line
   \<and> fst (monitor_iter done_line world_running) = Continue
   \<and> NODE_IS_RUNNING world_running
   \<and> \<not> NODE_IS_RUNNING (snd (monitor_iter done_line world_running))
   \<and> trace (snd (monitor_iter done_line world_running)) =
        [Acquire_write Monitor, Flag_write Monitor Write_locked False, Release_write Monitor]
   \<and> output_line log_line = Some (py ''hello'' @ [10]) \<and> poll log_line = None
   \<and> \<not> is_done_message log_line
   \<and> fst (monitor_iter log_line world_running) = Continue
   \<and> NODE_IS_RUNNING (snd (monitor_iter log_line world_running))
   \<and> trace (snd (monitor_iter log_line world_running)) = [Print (py ''hello'')]
   \<and> output_line exit_line \<noteq> None \<and> poll exit_line = Some 0
   \<and> fst (monitor_iter exit_line world_running) = Break
   \<and> \<not> NODE_IS_RUNNING (snd (monitor_iter exit_line world_running))
   \<and> trace (snd (monitor_iter exit_line world_running)) =
        [Acquire_write Monitor, Flag_write Monitor Write_locked False, Release_write Monitor]
   \<and> output_line empty_line = Some [] \<and> poll empty_line = None
   \<and> monitor_iter empty_line world_running = (Continue, world_running)
   \<and> output_line garbled_line = None
   \<and> monitor_iter garbled_line world_running = (Uncaught, world_running)
   \<and> monitor_live (process world_running)
   \<and> \<not> monitor_live (fst (monitor_thread garbled_line (process world_running) world_running))
   \<and> monitor_live (fst (monitor_thread done_line (process world_running) world_running))"
proof -
  have d: "output_line done_line =
      Some [123, 34, 116, 121, 112, 101, 34, 58, 34, 100, 111, 110, 101, 34, 125, 10]"
    "poll done_line = None" "is_done_message done_line"
    by (simp_all add: done_line_def is_done_message_def type_is_done_def)
  have l: "output_line log_line = Some (py ''hello'' @ [10])" "poll log_line = None"
    "\<not> is_done_message log_line"
    by (simp_all add: log_line_def is_done_message_def)
  have s: "strip (py ''hello'' @ [10]) = py ''hello''" by (rule strip_hello)
  have n: "py ''hello'' \<noteq> []" by (simp add: py_def)
  have e: "output_line exit_line = Some (py ''hello'' @ [10])" "poll exit_line = Some 0"
    by (simp_all add: exit_line_def)
  have g: "output_line garbled_line = None" by (simp add: garbled_line_def)
  have o: "output_line empty_line = Some []" "poll empty_line = None"
    by (simp_all add: empty_line_def)
  have p: "monitor_live (process world_running)" "\<not> stop_event (process world_running)"
    "NODE_IS_RUNNING world_running" "trace world_running = []"
    by (simp_all add: world_running_def world0_def)
  note T = monitor_classifies_line[of _ _ _ "process world_running"]
  from T[of done_line "[123, 34, 116, 121, 112, 101, 34, 58, 34, 100, 111, 110, 101, 34, 125, 10]"
        world_running]
    T[of log_line "py ''hello'' @ [10]" world_running]
    T[of exit_line "py ''hello'' @ [10]" world_running] T[of garbled_line _ world_running]
    T[of empty_line "[]" world_running]
    d l s n e g o p
  show ?thesis by simp
qed

text \<open>
  The claim as the specification has it says that every line other than a completion
  message is forwarded and leaves the flag alone. A blank line is neither a completion
  message nor forwarded, and the line read after the process has exited clears the flag.
\<close>

theorem monitor_drops_blank_line_and_clears_on_exit_counterexample:
  "\<not> is_done_message blank_line
   \<and> monitor_iter blank_line world_running = (Continue, world_running)
   \<and> \<not> is_done_message exit_line
   \<and> NODE_IS_RUNNING world_running
   \<and> monitor_iter exit_line world_running =
       (Break, world_running\<lparr>NODE_IS_RUNNING := False,
          trace := [Acquire_write Monitor, Flag_write Monitor Write_locked False,
                    Release_write Monitor]\<rparr>)"
  by (simp add: monitor_iter_def blank_line_def exit_line_def is_done_message_def
      print_stripped_def strip_newline locked_set_flag_effect world_running_def world0_def
      ReadWriteLock_def)

text \<open>
  Claim C3, as the code has it. For every payload of \<open>16^8\<close> bytes or more the dispatch
  fails before any byte is handed to the stdin of the companion process: \<open>write\<close>
  returns \<open>-1\<close> and \<open>run\<close> returns without a dictionary, without waiting and without
  pulling variables. The failure takes the handler every failure of \<open>write\<close> takes:
  the companion process is killed and started again, and the running flag is cleared
  under the write lock.
\<close>

theorem oversized_payload_fails_before_write_and_restarts:
  assumes "encode_utf8 (json_dumps_script script) = Some payload"
    and "16 ^ 8 \<le> length payload"
  shows "fst (node_write env script w) = - 1
    \<and> (\<exists>w' evs. run env script vars_arg timeout w = Some (Returned None, w')
          \<and> trace w' = trace w @ evs
          \<and> (\<forall>p b. Stdin_write p b \<notin> set evs)
          \<and> Sync_from \<notin> set evs
          \<and> (\<forall>t h. Flag_read t h \<notin> set evs)
          \<and> Kill (pid (process w)) \<in> set evs
          \<and> Spawn (next_pid w) \<in> set evs
          \<and> Flag_write Coordinator Write_locked False \<in> set evs
          \<and> pid (process w') = next_pid w
          \<and> \<not> NODE_IS_RUNNING w')"
proof -
  from assms have big: "16 ^ 8 \<le> length (json_dumps_script script)"
    by (simp add: encode_utf8_json)
  have "fst (node_write env script w) = - 1"
    by (simp add: node_write_def write_try_large[OF big])
  with run_oversized_facts[OF big, of env vars_arg timeout w] show ?thesis by blast
qed

theorem oversized_payload_fails_before_write_and_restarts_witness:
  "encode_utf8 (json_dumps_script big_script) = Some (json_dumps_script big_script)
   \<and> 16 ^ 8 \<le> length (json_dumps_script big_script)
   \<and> fst (node_write env0 big_script world0) = - 1
   \<and> (\<exists>w' evs. run env0 big_script None None world0 = Some (Returned None, w')
          \<and> trace w' = trace world0 @ evs
          \<and> (\<forall>p b. Stdin_write p b \<notin> set evs)
          \<and> Sync_from \<notin> set evs
          \<and> (\<forall>t h. Flag_read t h \<notin> set evs)
          \<and> Kill (pid (process world0)) \<in> set evs
          \<and> Spawn (next_pid world0) \<in> set evs
          \<and> Flag_write Coordinator Write_locked False \<in> set evs
          \<and> pid (process w') = next_pid world0
          \<and> \<not> NODE_IS_RUNNING w')"
  using oversized_payload_fails_before_write_and_restarts[OF encode_utf8_json big_script_is_big,
      of env0 world0 None None]
    encode_utf8_json[of big_script] big_script_is_big
  by blast

text \<open>
  The claim as the specification has it says that no restart is performed. On a script
  of \<open>16^8\<close> letters the process with id 1 is killed and process 2 is spawned.
\<close>

theorem oversized_payload_restarts_process_counterexample:
  "16 ^ 8 \<le> length (json_dumps_script big_script)
   \<and> pid (process world0) = 1
   \<and> run env0 big_script None None world0 =
       Some (Returned None,
         \<lparr>NODE_IS_RUNNING = False, NODE_LOCK = ReadWriteLock,
          process = \<lparr>pid = 2, returncode = None, stop_event = False, monitor_live = True\<rparr>,
          replaced = [\<lparr>pid = 1, returncode = None, stop_event = True, monitor_live = True\<rparr>],
          next_pid = 3, run_default_vars = [],
          trace = [Sync_to [], Acquire_write Coordinator,
            Flag_write Coordinator Write_locked True, Release_write Coordinator,
            Kill 1, Stop_monitor 1, Stop_monitor 1, Spawn 2,
            Print (py ''Pipe died for some reason: ''),
            Print (py ''exceptions must derive from BaseException''),
            Acquire_write Coordinator, Flag_write Coordinator Write_locked False,
            Release_write Coordinator, Print (py ''Could not run script'')]\<rparr>)"
proof -
  have nb: "\<not> py_in (py ''Broken pipe'') (py ''exceptions must derive from BaseException'')"
    by (simp add: py_def)
  have "run env0 big_script None None world0 =
       Some (Returned None,
         \<lparr>NODE_IS_RUNNING = False, NODE_LOCK = ReadWriteLock,
          process = \<lparr>pid = 2, returncode = None, stop_event = False, monitor_live = True\<rparr>,
          replaced = [\<lparr>pid = 1, returncode = None, stop_event = True, monitor_live = True\<rparr>],
          next_pid = 3, run_default_vars = [],
          trace = [Sync_to [], Acquire_write Coordinator,
            Flag_write Coordinator Write_locked True, Release_write Coordinator,
            Kill 1, Stop_monitor 1, Stop_monitor 1, Spawn 2,
            Print (py ''Pipe died for some reason: ''),
            Print (py ''exceptions must derive from BaseException''),
            Acquire_write Coordinator, Flag_write Coordinator Write_locked False,
            Release_write Coordinator, Print (py ''Could not run script'')]\<rparr>)"
    unfolding run_oversized[OF big_script_is_big]
    by (simp add: write_except_def nb env0_def world0_def ReadWriteLock_def Let_def
        locked_set_flag_effect cancel_restart_effect os_kill_def emit_def py_print_def)
  then show ?thesis using big_script_is_big by (simp add: world0_def)
qed

text \<open>
  Claim C4, as the code has it. Every write of the running flag that a call of \<open>run\<close>
  brings about, by \<open>run\<close> itself, by the failure handler of \<open>write\<close> or by the
  monitor, and every write by \<open>write\<close>, by the monitor or in the wait loop at any
  time, is made while the write lock is held. Every read of the flag inside the wait loop is made while the read lock is held,
  given that no writer holds the lock when the loop starts. \<open>clean_lock\<close> is different:
  it writes the flag in whatever state the lock is, acquires nothing, and then puts a
  new lock in place.
\<close>

theorem flag_accessed_under_lock_except_by_clean_lock:
  "(\<forall>out w'. run env script vars_arg timeout w = Some (out, w') \<longrightarrow>
       (\<exists>evs. trace w' = trace w @ evs
          \<and> (\<forall>t h v. Flag_write t h v \<in> set evs \<longrightarrow> h = Write_locked)))
   \<and> (\<exists>evs. trace (snd (node_write env script w)) = trace w @ evs
          \<and> (\<forall>t h v. Flag_write t h v \<in> set evs \<longrightarrow> h = Write_locked))
   \<and> (\<exists>evs. trace (monitor_run ls w) = trace w @ evs
          \<and> (\<forall>t h v. Flag_write t h v \<in> set evs \<longrightarrow> h = Write_locked))
   \<and> (\<exists>evs. trace (world_of (wait_loop env timeout start flag ts w)) = trace w @ evs
          \<and> (\<forall>t h v. Flag_write t h v \<in> set evs \<longrightarrow> h = Write_locked))
   \<and> (\<not> writer (NODE_LOCK w) \<longrightarrow>
       (\<exists>evs. trace (world_of (wait_loop env timeout start flag ts w)) = trace w @ evs
          \<and> (\<forall>t h. Flag_read t h \<in> set evs \<longrightarrow> h = Read_locked)))
   \<and> trace (clean_lock w) = trace w @ [Flag_write Coordinator (held_mode (NODE_LOCK w)) False]
   \<and> NODE_LOCK (clean_lock w) = ReadWriteLock"
proof -
  have "\<forall>out w'. run env script vars_arg timeout w = Some (out, w') \<longrightarrow>
       (\<exists>evs. trace w' = trace w @ evs
          \<and> (\<forall>t h v. Flag_write t h v \<in> set evs \<longrightarrow> h = Write_locked))"
    using run_writes_locked by blast
  moreover have "\<exists>evs. trace (snd (node_write env script w)) = trace w @ evs
          \<and> (\<forall>t h v. Flag_write t h v \<in> set evs \<longrightarrow> h = Write_locked)"
    by (rule advances_writes[OF advances_node_write])
  moreover have "\<exists>evs. trace (monitor_run ls w) = trace w @ evs
          \<and> (\<forall>t h v. Flag_write t h v \<in> set evs \<longrightarrow> h = Write_locked)"
    by (rule advances_writes[OF advances_monitor_run])
  moreover have "\<exists>evs. trace (world_of (wait_loop env timeout start flag ts w)) = trace w @ evs
          \<and> (\<forall>t h v. Flag_write t h v \<in> set evs \<longrightarrow> h = Write_locked)"
    by (rule advances_writes[OF advances_wait_loop])
  moreover have "\<not> writer (NODE_LOCK w) \<longrightarrow>
       (\<exists>evs. trace (world_of (wait_loop env timeout start flag ts w)) = trace w @ evs
          \<and> (\<forall>t h. Flag_read t h \<in> set evs \<longrightarrow> h = Read_locked))"
    using reads_guarded_wait_loop[of w env timeout start flag ts]
    by (simp add: reads_guarded_def)
  moreover have "trace (clean_lock w) = trace w @ [Flag_write Coordinator (held_mode (NODE_LOCK w)) False]"
    "NODE_LOCK (clean_lock w) = ReadWriteLock"
    by (simp_all add: clean_lock_def set_flag_def emit_def)
  ultimately show ?thesis by blast
qed

theorem flag_accessed_under_lock_except_by_clean_lock_witness:
  "run env_done (py ''x'') None None world0 \<noteq> None
   \<and> (\<exists>evs. trace (snd (the (run env_done (py ''x'') None None world0))) = trace world0 @ evs
          \<and> (\<forall>t h v. Flag_write t h v \<in> set evs \<longrightarrow> h = Write_locked))
   \<and> trace (monitor_run [(Current, done_line)] world0) =
        [Acquire_write Monitor, Flag_write Monitor Write_locked False, Release_write Monitor]
   \<and> \<not> writer (NODE_LOCK world0)
   \<and> trace (world_of (wait_loop env_done None 0 True [quiet_tick] world0)) =
        [Acquire_read Coordinator, Flag_read Coordinator Read_locked, Release_read Coordinator]
   \<and> trace (clean_lock world0) = [Flag_write Coordinator Unlocked False]
   \<and> NODE_LOCK (clean_lock world0) = ReadWriteLock"
proof -
  note T = flag_accessed_under_lock_except_by_clean_lock[of env_done "py ''x''" None None world0
      "[(Current, done_line)]" 0 True "[quiet_tick]"]
  from T run_x_default_first have
    1: "\<exists>evs. trace (snd (the (run env_done (py ''x'') None None world0))) = trace world0 @ evs
          \<and> (\<forall>t h v. Flag_write t h v \<in> set evs \<longrightarrow> h = Write_locked)"
    by simp
  have 2: "run env_done (py ''x'') None None world0 \<noteq> None"
    using run_x_default_first by simp
  have 3: "\<not> writer (NODE_LOCK world0)" "held_mode (NODE_LOCK world0) = Unlocked"
    "trace world0 = []"
    by (simp_all add: world0_def ReadWriteLock_def held_mode_def)
  from T 1 2 3 wait_loop_sample_quiet monitor_run_done_line show ?thesis
    by simp
qed

text \<open>
  The claim as the specification has it includes the lock reset among the operations
  that hold the lock. With the lock free and a run in progress, \<open>clean_lock\<close> writes
  the flag while nothing is held.
\<close>

theorem clean_lock_writes_flag_without_lock_counterexample:
  "held_mode (NODE_LOCK world_running) = Unlocked
   \<and> NODE_IS_RUNNING world_running
   \<and> clean_lock world_running =
       world_running\<lparr>NODE_IS_RUNNING := False,
         trace := [Flag_write Coordinator Unlocked False]\<rparr>"
  by (simp add: clean_lock_def set_flag_def emit_def held_mode_def world_running_def world0_def
      ReadWriteLock_def)

text \<open>
  Claim C5. A run with a timeout is still waiting in its loop after some iterations; in
  the next one the clock shows that more than the timeout has passed, and neither that
  iteration nor the one after it is interrupted. Then \<open>run\<close> kills the companion
  process and spawns a new one (\<open>cancel\<close> with its default \<open>restart=True\<close>), takes the
  write lock, sets the running flag to false and releases the lock; the loop ends no
  later than the iteration after, whatever else the environment holds ready, and
  \<open>run\<close> returns its dictionary. Afterwards the flag is false and the companion
  process has another process id than before the run.
\<close>

theorem timeout_cancels_restarts_and_exits:
  assumes "run (env\<lparr>ticks := pre\<rparr>) script vars_arg (Some limit) w = None"
    and "ticks env = pre @ t # t' # post"
    and "interrupt t = None" and "now t - start_time env > limit" and "interrupt t' = None"
    and "pid (process w) < next_pid w"
  shows "\<exists>r w' evs p q ks evs'.
       run env script vars_arg (Some limit) w = Some (Returned (Some r), w')
     \<and> run (env\<lparr>ticks := pre @ [t, t']\<rparr>) script vars_arg (Some limit) w
          = Some (Returned (Some r), w')
     \<and> trace w' = trace w @ evs @ Kill p # ks
          @ [Stop_monitor p, Spawn q, Acquire_write Coordinator,
             Flag_write Coordinator Write_locked False, Release_write Coordinator,
             Print_took_longer limit] @ evs'
     \<and> p \<noteq> q
     \<and> pid (process w') \<noteq> pid (process w)
     \<and> \<not> NODE_IS_RUNNING w'"
proof -
  from run_timed_out[OF assms(1-5)] obtain w2 wf where
    r: "run env script vars_arg (Some limit) w =
        Some (Returned (Some (assign_all (new_vars env) (vars_of vars_arg w))),
              pulled env vars_arg (vars_of vars_arg w) wf)"
       "run (env\<lparr>ticks := pre @ [t, t']\<rparr>) script vars_arg (Some limit) w =
        Some (Returned (Some (assign_all (new_vars env) (vars_of vars_arg w))),
              pulled env vars_arg (vars_of vars_arg w) wf)"
    and a1: "advances w w2" and a2: "advances (on_timeout env limit w2) wf"
    and nf: "\<not> NODE_IS_RUNNING wf"
    by blast
  from a1 obtain evs where evs: "trace w2 = trace w @ evs"
    unfolding advances_def by blast
  from a1 assms(6) have f: "pid (process w) \<le> pid (process w2)" "pid (process w2) < next_pid w2"
    unfolding advances_def by auto
  from a2 obtain evs' where evs': "trace wf = trace (on_timeout env limit w2) @ evs'"
    unfolding advances_def by blast
  from a2 have g: "next_pid w2 \<le> pid (process wf)"
    unfolding advances_def by (simp add: on_timeout_fields)
  let ?w' = "pulled env vars_arg (vars_of vars_arg w) wf"
  let ?ks = "case os_kill env (process w2) of
            None \<Rightarrow> [Stop_monitor (pid (process w2))]
          | Some e \<Rightarrow> [Print e]"
  have "trace ?w' = trace w @ evs @ Kill (pid (process w2)) # ?ks
          @ [Stop_monitor (pid (process w2)), Spawn (next_pid w2), Acquire_write Coordinator,
             Flag_write Coordinator Write_locked False, Release_write Coordinator,
             Print_took_longer limit] @ (evs' @ [Sync_from])"
    by (simp add: pulled_fields evs' on_timeout_fields evs)
  moreover have "pid (process w2) \<noteq> next_pid w2" "pid (process ?w') \<noteq> pid (process w)"
    "\<not> NODE_IS_RUNNING ?w'"
    using f g nf by (simp_all add: pulled_fields)
  ultimately show ?thesis using r by blast
qed

theorem timeout_cancels_restarts_and_exits_witness:
  "run (env_late\<lparr>ticks := [quiet_tick]\<rparr>) (py ''x'') None (Some 5) world0 = None
   \<and> ticks env_late = [quiet_tick] @ late_tick # late_tick # []
   \<and> interrupt late_tick = None
   \<and> now late_tick - start_time env_late > 5
   \<and> pid (process world0) < next_pid world0
   \<and> (\<exists>r w' evs p q ks evs'.
       run env_late (py ''x'') None (Some 5) world0 = Some (Returned (Some r), w')
     \<and> run (env_late\<lparr>ticks := [quiet_tick] @ [late_tick, late_tick]\<rparr>) (py ''x'') None (Some 5) world0
          = Some (Returned (Some r), w')
     \<and> trace w' = trace world0 @ evs @ Kill p # ks
          @ [Stop_monitor p, Spawn q, Acquire_write Coordinator,
             Flag_write Coordinator Write_locked False, Release_write Coordinator,
             Print_took_longer 5] @ evs'
     \<and> p \<noteq> q
     \<and> pid (process w') \<noteq> pid (process world0)
     \<and> \<not> NODE_IS_RUNNING w')
   \<and> pid (process world0) = 1
   \<and> pid (process (snd (the (run env_late (py ''x'') None (Some 5) world0)))) = 3"
proof -
  have h1: "run (env_late\<lparr>ticks := [quiet_tick]\<rparr>) (py ''x'') None (Some 5) world0 = None"
    using run_x_late_waiting by (simp add: env_late_def)
  have h2: "ticks env_late = [quiet_tick] @ late_tick # late_tick # []"
    by (simp add: env_late_def env0_def)
  have h3: "interrupt late_tick = None" by (simp add: late_tick_def)
  have h4: "now late_tick - start_time env_late > 5"
    by (simp add: late_tick_def env_late_def env0_def)
  have h6: "pid (process world0) < next_pid world0" by (simp add: world0_def)
  have c: "pid (process world0) = 1"
    "pid (process (snd (the (run env_late (py ''x'') None (Some 5) world0)))) = 3"
    using run_x_late by (simp_all add: env_late_def world0_def)
  from timeout_cancels_restarts_and_exits[OF h1 h2 h3 h4 h3 h6] h1 h2 h3 h4 h6 c
  show ?thesis by simp
qed




text \<open>
  Claim C7. When writing the frame fails (\<open>stdin.write\<close> or \<open>stdin.flush\<close> raises,
  a broken pipe included), \<open>write\<close> returns \<open>-1\<close> instead of raising and \<open>run\<close>
  returns to its caller without a dictionary; the flag is never sampled and no variable
  is pulled; the companion process is killed and a new one, with another process id,
  is spawned.
\<close>

theorem io_failure_reported_and_process_restarted:
  assumes "length (json_dumps_script script) < 16 ^ 8"
    and "write_error env \<noteq> None \<or> flush_error env \<noteq> None"
    and "pid (process w) < next_pid w"
  shows "fst (node_write env script w) = - 1
    \<and> (\<exists>w' evs. run env script vars_arg timeout w = Some (Returned None, w')
          \<and> trace w' = trace w @ evs
          \<and> Sync_from \<notin> set evs
          \<and> (\<forall>t h. Flag_read t h \<notin> set evs)
          \<and> Kill (pid (process w)) \<in> set evs
          \<and> Spawn (pid (process w')) \<in> set evs
          \<and> pid (process w') \<noteq> pid (process w)
          \<and> \<not> NODE_IS_RUNNING w')"
proof
  from write_try_io_failure[OF assms(1,2), of w] obtain e w' where
    "write_try env script w = Inl (e, w')" by blast
  then show "fst (node_write env script w) = - 1" by (simp add: node_write_def)
next
  let ?vars = "case vars_arg of None \<Rightarrow> run_default_vars w | Some d \<Rightarrow> d"
  let ?w2 = "locked_set_flag Coordinator True (emit (Sync_to ?vars) w)"
  from write_try_io_failure[OF assms(1,2), of ?w2] obtain e w3 evs where
    wt: "write_try env script ?w2 = Inl (e, w3)" and
    f: "process w3 = process ?w2" "next_pid w3 = next_pid ?w2" and
    t: "trace w3 = trace ?w2 @ evs" "Sync_from \<notin> set evs" "\<forall>t h. Flag_read t h \<notin> set evs"
    by blast
  from write_except_trace[of env e w3] obtain evs' where
    t': "trace (write_except env e w3) = trace w3 @ evs'" "Sync_from \<notin> set evs'"
      "\<forall>t h. Flag_read t h \<notin> set evs'" "Kill (pid (process w3)) \<in> set evs'"
      "Spawn (next_pid w3) \<in> set evs'"
    by blast
  let ?w' = "py_print (py ''Could not run script'') (write_except env e w3)"
  have r: "run env script vars_arg timeout w = Some (Returned None, ?w')"
    by (rule run_dispatch_failed[OF wt])
  have "trace ?w' = trace w @ ([Sync_to ?vars, Acquire_write Coordinator,
      Flag_write Coordinator Write_locked True, Release_write Coordinator] @ evs @ evs'
      @ [Print (py ''Could not run script'')])"
    by (simp add: py_print_def emit_fields t t' locked_set_flag_fields)
  moreover have "pid (process ?w') = next_pid w" "\<not> NODE_IS_RUNNING ?w'"
    by (simp_all add: py_print_def emit_fields write_except_fields f locked_set_flag_fields)
  moreover have "pid (process w3) = pid (process w)" "next_pid w3 = next_pid w"
    by (simp_all add: f locked_set_flag_fields emit_fields)
  ultimately show "\<exists>w' evs. run env script vars_arg timeout w = Some (Returned None, w')
          \<and> trace w' = trace w @ evs
          \<and> Sync_from \<notin> set evs
          \<and> (\<forall>t h. Flag_read t h \<notin> set evs)
          \<and> Kill (pid (process w)) \<in> set evs
          \<and> Spawn (pid (process w')) \<in> set evs
          \<and> pid (process w') \<noteq> pid (process w)
          \<and> \<not> NODE_IS_RUNNING w'"
    using r t t' assms(3) by (intro exI[of _ ?w'] exI[of _ "[Sync_to ?vars, Acquire_write Coordinator,
      Flag_write Coordinator Write_locked True, Release_write Coordinator] @ evs @ evs'
      @ [Print (py ''Could not run script'')]"]) auto
qed

theorem io_failure_reported_and_process_restarted_witness:
  "length (json_dumps_script (py ''x'')) < 16 ^ 8
   \<and> write_error env_broken_pipe = Some (py ''[Errno 32] Broken pipe'')
   \<and> pid (process world0) < next_pid world0
   \<and> fst (node_write env_broken_pipe (py ''x'') world0) = - 1
   \<and> run env_broken_pipe (py ''x'') None None world0 =
       Some (Returned None,
         \<lparr>NODE_IS_RUNNING = False, NODE_LOCK = ReadWriteLock,
          process = \<lparr>pid = 2, returncode = None, stop_event = False, monitor_live = True\<rparr>,
          replaced = [\<lparr>pid = 1, returncode = None, stop_event = True, monitor_live = True\<rparr>],
          next_pid = 3, run_default_vars = [],
          trace = [Sync_to [], Acquire_write Coordinator,
            Flag_write Coordinator Write_locked True, Release_write Coordinator,
            Stdin_write 1 ([69, 48, 48, 48, 48, 48, 48, 48, 102, 67]
              @ [123, 34, 115, 99, 114, 105, 112, 116, 34, 58, 32, 34, 120, 34, 125]),
            Kill 1, Stop_monitor 1, Stop_monitor 1, Spawn 2,
            Print (py ''Pipe broke and was restarted''),
            Acquire_write Coordinator, Flag_write Coordinator Write_locked False,
            Release_write Coordinator, Print (py ''Could not run script'')]\<rparr>)"
proof -
  have h1: "length (json_dumps_script (py ''x'')) < 16 ^ 8"
    by (simp add: json_dumps_script_x)
  have h2: "write_error env_broken_pipe \<noteq> None \<or> flush_error env_broken_pipe \<noteq> None"
    by (simp add: env_broken_pipe_def)
  have h3: "pid (process world0) < next_pid world0"
    by (simp add: world0_def)
  have broken: "py_in (py ''Broken pipe'') (py ''[Errno 32] Broken pipe'')"
    by (simp add: py_def)
  have r: "run env_broken_pipe (py ''x'') None None world0 =
       Some (Returned None,
         \<lparr>NODE_IS_RUNNING = False, NODE_LOCK = ReadWriteLock,
          process = \<lparr>pid = 2, returncode = None, stop_event = False, monitor_live = True\<rparr>,
          replaced = [\<lparr>pid = 1, returncode = None, stop_event = True, monitor_live = True\<rparr>],
          next_pid = 3, run_default_vars = [],
          trace = [Sync_to [], Acquire_write Coordinator,
            Flag_write Coordinator Write_locked True, Release_write Coordinator,
            Stdin_write 1 ([69, 48, 48, 48, 48, 48, 48, 48, 102, 67]
              @ [123, 34, 115, 99, 114, 105, 112, 116, 34, 58, 32, 34, 120, 34, 125]),
            Kill 1, Stop_monitor 1, Stop_monitor 1, Spawn 2,
            Print (py ''Pipe broke and was restarted''),
            Acquire_write Coordinator, Flag_write Coordinator Write_locked False,
            Release_write Coordinator, Print (py ''Could not run script'')]\<rparr>)"
    by (simp add: run_def node_write_def write_try_def frame_x write_except_def broken
        env_broken_pipe_def env0_def world0_def ReadWriteLock_def Let_def
        locked_set_flag_effect cancel_restart_effect os_kill_def emit_def py_print_def)
  from io_failure_reported_and_process_restarted[OF h1 h2 h3, of None None] h1 h3 r
  show ?thesis by (simp add: env_broken_pipe_def)
qed




text \<open>
  Claim C9. Whenever the wait loop of a run ends without an interruption, by completion
  or by timeout, \<open>run\<close> pulls the variables and returns a dictionary: the caller's
  (the default one when the argument is left out) with the pulled variables assigned
  into it. A name that was pulled has the pulled value, every other name has the value
  it had; the pull is the last thing the run does and the only pull of the run; and a
  run on the default dictionary leaves the result there.
\<close>

theorem pulled_variables_merged_and_returned:
  assumes "run_loop env script vars_arg timeout w = Some (Exited w6)"
    and "distinct (map fst (new_vars env))"
  shows "\<exists>r w' evs.
      run env script vars_arg timeout w = Some (Returned (Some r), w')
    \<and> (\<forall>key. map_of r key =
            (case map_of (new_vars env) key of
               Some v \<Rightarrow> Some v
             | None \<Rightarrow> map_of (case vars_arg of None \<Rightarrow> run_default_vars w | Some d \<Rightarrow> d) key))
    \<and> trace w' = trace w @ evs @ [Sync_from] \<and> Sync_from \<notin> set evs
    \<and> trace w6 = trace w @ evs
    \<and> (vars_arg = None \<longrightarrow> run_default_vars w' = r)"
proof -
  let ?vars = "vars_of vars_arg w"
  let ?r = "assign_all (new_vars env) ?vars"
  let ?w' = "pulled env vars_arg ?vars w6"
  from run_after_loop[OF assms(1)] have
    r: "run env script vars_arg timeout w = Some (Returned (Some ?r), ?w')"
    by (simp add: after_loop_def)
  from assms(1) obtain w3 where
    wt: "write_try env script (before_write vars_arg w) = Inr w3" and
    wl: "wait_loop env timeout (start_time env)
          (NODE_IS_RUNNING (monitor_run (early_lines env) w3)) (ticks env) (before_loop env w3)
        = Exited w6"
    by (auto simp: run_loop_def split: sum.splits)
  have "advances w w6"
    using advances_to_loop[OF wt, of timeout "start_time env"
        "NODE_IS_RUNNING (monitor_run (early_lines env) w3)" "ticks env"] wl by simp
  then obtain evs where evs: "trace w6 = trace w @ evs" "list_all guarded_event evs"
    unfolding advances_def by blast
  have "\<forall>key. map_of ?r key =
            (case map_of (new_vars env) key of
               Some v \<Rightarrow> Some v
             | None \<Rightarrow> map_of (case vars_arg of None \<Rightarrow> run_default_vars w | Some d \<Rightarrow> d) key)"
    by (simp add: map_of_assign_all[OF assms(2)] map_add_def vars_of_def split: option.split)
  moreover have "trace ?w' = trace w @ evs @ [Sync_from]" "Sync_from \<notin> set evs"
    using evs guarded_no_pull by (simp_all add: pulled_fields)
  moreover have "vars_arg = None \<longrightarrow> run_default_vars ?w' = ?r"
    by (simp add: pulled_def)
  ultimately show ?thesis using r evs(1) by blast
qed

theorem pulled_variables_merged_and_returned_witness:
  "(\<exists>w6. run_loop env_done (py ''x'') (Some [(py ''x'', 5), (py ''y'', 1)]) None world0
            = Some (Exited w6))
   \<and> new_vars env_done = [(py ''y'', 7), (py ''z'', 9)]
   \<and> distinct (map fst (new_vars env_done))
   \<and> (\<exists>w'. run env_done (py ''x'') (Some [(py ''x'', 5), (py ''y'', 1)]) None world0 =
          Some (Returned (Some [(py ''x'', 5), (py ''y'', 7), (py ''z'', 9)]), w'))
   \<and> (\<exists>w6. run_loop (env_late\<lparr>new_vars := [(py ''y'', 7)]\<rparr>) (py ''x'') None (Some 5) world0
            = Some (Exited w6))
   \<and> (\<exists>r w' evs.
        run (env_late\<lparr>new_vars := [(py ''y'', 7)]\<rparr>) (py ''x'') None (Some 5) world0
          = Some (Returned (Some r), w')
      \<and> map_of r (py ''y'') = Some 7
      \<and> trace w' = evs @ [Sync_from] \<and> Sync_from \<notin> set evs
      \<and> Print_took_longer 5 \<in> set evs
      \<and> run_default_vars w' = r)"
proof -
  obtain v6 where
    c: "run_loop env_done (py ''x'') (Some [(py ''x'', 5), (py ''y'', 1)]) None world0
          = Some (Exited v6)"
    by (simp add: run_loop_def before_write_def before_loop_def vars_of_def run_steps frame_x
        samples)
  have d: "new_vars env_done = [(py ''y'', 7), (py ''z'', 9)]"
    "distinct (map fst (new_vars env_done))"
    by (simp_all add: env_done_def env0_def py_eq_iff)
  let ?env = "env_late\<lparr>new_vars := [(py ''y'', 7)]\<rparr>"
  obtain u6 where
    t: "run_loop ?env (py ''x'') None (Some 5) world0 = Some (Exited u6)"
    and p: "Print_took_longer 5 \<in> set (trace u6)"
    by (simp add: run_loop_def before_write_def before_loop_def vars_of_def run_steps frame_x
        samples)
  have e: "distinct (map fst (new_vars ?env))" "map_of (new_vars ?env) (py ''y'') = Some 7"
    "trace world0 = []"
    by (simp_all add: world0_def)
  from pulled_variables_merged_and_returned[OF c d(2)] run_x_done
  have 1: "\<exists>w'. run env_done (py ''x'') (Some [(py ''x'', 5), (py ''y'', 1)]) None world0 =
          Some (Returned (Some [(py ''x'', 5), (py ''y'', 7), (py ''z'', 9)]), w')"
    by simp
  from pulled_variables_merged_and_returned[OF t e(1)] obtain r w' evs where
    2: "run ?env (py ''x'') None (Some 5) world0 = Some (Returned (Some r), w')"
      "\<forall>key. map_of r key =
            (case map_of (new_vars ?env) key of
               Some v \<Rightarrow> Some v
             | None \<Rightarrow> map_of (case None of None \<Rightarrow> run_default_vars world0 | Some d \<Rightarrow> d) key)"
      "trace w' = trace world0 @ evs @ [Sync_from]" "Sync_from \<notin> set evs"
      "trace u6 = trace world0 @ evs" "run_default_vars w' = r"
    by auto
  from 2(2) e(2) have "map_of r (py ''y'') = Some 7" by simp
  with 2 p e(3) have "\<exists>r w' evs.
        run ?env (py ''x'') None (Some 5) world0 = Some (Returned (Some r), w')
      \<and> map_of r (py ''y'') = Some 7
      \<and> trace w' = evs @ [Sync_from] \<and> Sync_from \<notin> set evs
      \<and> Print_took_longer 5 \<in> set evs
      \<and> run_default_vars w' = r"
    by auto
  with c t d 1 show ?thesis by blast
qed

text \<open>
  Claim C10. Two calls of \<open>run\<close> that leave the dictionary argument out and return
  work on one and the same object. After the first call the default dictionary holds
  what that call returned; the second call starts by pushing exactly that dictionary;
  and every variable the first call pulled is in the dictionary the second call
  returns, with the value of the first call unless the second call pulled the name
  again.
\<close>

theorem default_vars_shared_between_runs:
  assumes "run env1 script1 None timeout1 w = Some (Returned (Some r1), w1)"
    and "run env2 script2 None timeout2 w1 = Some (Returned (Some r2), w2)"
    and "distinct (map fst (new_vars env1))"
    and "distinct (map fst (new_vars env2))"
  shows "run_default_vars w1 = r1
    \<and> (\<exists>evs. trace w2 = trace w1 @ Sync_to r1 # evs)
    \<and> (\<forall>key v. map_of (new_vars env1) key = Some v \<longrightarrow>
          map_of r1 key = Some v \<and> map_of r2 key \<noteq> None
        \<and> (map_of (new_vars env2) key = None \<longrightarrow> map_of r2 key = Some v))"
proof -
  from run_returns_dictionary[OF assms(1)] obtain w6 where
    r1: "r1 = assign_all (new_vars env1) (vars_of None w)"
    and w1: "w1 = pulled env1 None (vars_of None w) w6"
    by blast
  have d: "run_default_vars w1 = r1" by (simp add: w1 r1 pulled_default_vars)
  then have v: "vars_of None w1 = r1" by (simp add: vars_of_def)
  from run_returns_dictionary[OF assms(2)] have
    r2: "r2 = assign_all (new_vars env2) r1"
    by (auto simp: v)
  from run_pushes_first[OF assms(2)] have
    p: "\<exists>evs. trace w2 = trace w1 @ Sync_to r1 # evs"
    by (simp add: v)
  have m1: "map_of r1 = map_of (vars_of None w) ++ map_of (new_vars env1)"
    unfolding r1 by (rule map_of_assign_all[OF assms(3)])
  have m2: "map_of r2 = map_of r1 ++ map_of (new_vars env2)"
    unfolding r2 by (rule map_of_assign_all[OF assms(4)])
  have "\<forall>key v. map_of (new_vars env1) key = Some v \<longrightarrow>
          map_of r1 key = Some v \<and> map_of r2 key \<noteq> None
        \<and> (map_of (new_vars env2) key = None \<longrightarrow> map_of r2 key = Some v)"
    by (auto simp: m1 m2 map_add_def split: option.splits)
  with d p show ?thesis by blast
qed

theorem default_vars_shared_between_runs_witness:
  "fst (the (run env_done (py ''x'') None None world0))
     = Returned (Some [(py ''y'', 7), (py ''z'', 9)])
   \<and> new_vars env_done = [(py ''y'', 7), (py ''z'', 9)]
   \<and> new_vars env_done_again = []
   \<and> fst (the (run env_done_again (py ''x'') None None
                 (snd (the (run env_done (py ''x'') None None world0)))))
     = Returned (Some [(py ''y'', 7), (py ''z'', 9)])
   \<and> run_default_vars (snd (the (run env_done (py ''x'') None None world0)))
     = [(py ''y'', 7), (py ''z'', 9)]
   \<and> (\<exists>evs. trace (snd (the (run env_done_again (py ''x'') None None
                 (snd (the (run env_done (py ''x'') None None world0))))))
        = trace (snd (the (run env_done (py ''x'') None None world0)))
          @ Sync_to [(py ''y'', 7), (py ''z'', 9)] # evs)"
proof -
  let ?r = "[(py ''y'', 7), (py ''z'', 9 :: int)]"
  obtain w1 where r1: "run env_done (py ''x'') None None world0 = Some (Returned (Some ?r), w1)"
    and w1: "w1 = \<lparr>NODE_IS_RUNNING = False, NODE_LOCK = ReadWriteLock,
        process = \<lparr>pid = 1, returncode = None, stop_event = False, monitor_live = True\<rparr>,
        replaced = [],
        next_pid = 2, run_default_vars = ?r, trace = trace w1\<rparr>"
    using run_x_default_first by simp
  obtain w2 where r2: "run env_done_again (py ''x'') None None w1 = Some (Returned (Some ?r), w2)"
    using run_x_default_second[of "trace w1"] w1 by simp
  have d1: "distinct (map fst (new_vars env_done))"
    and d2: "distinct (map fst (new_vars env_done_again))"
    and n: "new_vars env_done = ?r" "new_vars env_done_again = []"
    by (simp_all add: env_done_def env_done_again_def env0_def py_eq_iff)
  from default_vars_shared_between_runs[OF r1 r2 d1 d2] r1 r2 n
  show ?thesis by simp
qed

end
